theory Spec2Isabelle
  imports Main "HOL-Library.List_Lexorder" "HOL-Library.Char_ord"
    "HOL-Library.Product_Lexorder" "HOL-Library.AList"
begin

section \<open>Strings as JavaScript sees them\<close>

text \<open>
  Strings are \<^typ>\<open>string\<close>; the order on them (\<^theory_text>\<open>List_Lexorder\<close> over
  \<^theory_text>\<open>Char_ord\<close>) is the code-unit order that \<^verbatim>\<open>Array.prototype.sort()\<close> and
  \<^verbatim>\<open><\<close> use on strings.  A JavaScript string is falsy exactly when it is empty.
\<close>

definition truthy :: "string \<Rightarrow> bool" where
  "truthy s = (s \<noteq> [])"

definition isDigit :: "char \<Rightarrow> bool" where
  "isDigit c = (c \<in> set ''0123456789'')"

definition isLetterDash :: "char \<Rightarrow> bool" where
  "isLetterDash c =
     (c \<in> set ''abcdefghijklmnopqrstuvwxyzABCDEFGHIJKLMNOPQRSTUVWXYZ-'')"

definition isSpace :: "char \<Rightarrow> bool" where
  "isSpace c = (c \<in> {CHR '' '', CHR 0x09, CHR 0x0A, CHR 0x0B, CHR 0x0C, CHR 0x0D})"

definition trim :: "string \<Rightarrow> string" where
  "trim s = rev (dropWhile isSpace (rev (dropWhile isSpace s)))"

text \<open>\<^verbatim>\<open>s.split(d)\<close> for a one-character separator.\<close>

fun splitOn :: "char \<Rightarrow> string \<Rightarrow> string list" where
  "splitOn d [] = [[]]"
| "splitOn d (c # cs) =
     (if c = d then [] # splitOn d cs
      else (case splitOn d cs of [] \<Rightarrow> [[c]] | w # ws \<Rightarrow> (c # w) # ws))"

definition digitValue :: "char \<Rightarrow> nat" where
  "digitValue c = of_char c - 48"

definition digitsToNat :: "string \<Rightarrow> nat" where
  "digitsToNat s = foldl (\<lambda>n c. 10 * n + digitValue c) 0 s"

text \<open>\<^verbatim>\<open>s.toLowerCase()\<close> on the ASCII letters.\<close>

definition lowerChar :: "char \<Rightarrow> char" where
  "lowerChar c =
     (if c \<in> set ''ABCDEFGHIJKLMNOPQRSTUVWXYZ'' then char_of (of_char c + (32::nat)) else c)"

definition toLowerCase :: "string \<Rightarrow> string" where
  "toLowerCase s = map lowerChar s"

text \<open>\<^verbatim>\<open>content.replace(/\r\n/g, '\n')\<close>.\<close>

fun normalizeLF :: "string \<Rightarrow> string" where
  "normalizeLF (a # b # cs) =
     (if a = CHR 0x0D \<and> b = CHR 0x0A then b # normalizeLF cs else a # normalizeLF (b # cs))"
| "normalizeLF cs = cs"

text \<open>\<^verbatim>\<open>s.includes(t)\<close> and \<^verbatim>\<open>s.endsWith(t)\<close>.\<close>

fun includesStr :: "string \<Rightarrow> string \<Rightarrow> bool" where
  "includesStr [] t = (t = [])"
| "includesStr (c # cs) t = (take (length t) (c # cs) = t \<or> includesStr cs t)"

definition endsWith :: "string \<Rightarrow> string \<Rightarrow> bool" where
  "endsWith s t = (length t \<le> length s \<and> drop (length s - length t) s = t)"

section \<open>The semver package, as far as the engine uses it\<close>

text \<open>
  The engine calls \<^verbatim>\<open>semver.valid\<close> and \<^verbatim>\<open>semver.maxSatisfying\<close> of the npm package
  \<^verbatim>\<open>semver\<close>, which is a dependency and not part of the repository.  The definitions of
  this section follow the package's documented behaviour: a version is
  \<^verbatim>\<open>[v]MAJOR.MINOR.PATCH[-PRERELEASE][+BUILD]\<close>, precedence is the one of SemVer 2.0.0
  (build metadata ignored, a prerelease below its release, numeric identifiers below
  alphanumeric ones), and the range \<^verbatim>\<open>*\<close> is satisfied by every version without a
  prerelease tag and by no version with one.  Numeric identifiers are exact naturals here;
  the package's limits on length and on the size of numbers are left out.  The grammar of
  all other ranges is a parameter: a function that gives for a range string the test it
  denotes on a parsed version, or \<open>None\<close> when the package rejects the range.
\<close>

datatype ident = Num nat | Alnum string

record semver =
  major :: nat
  minor :: nat
  patch :: nat
  prerelease :: "ident list"

type_synonym range_grammar = "string \<Rightarrow> (semver \<Rightarrow> bool) option"

definition numericIdentifier :: "string \<Rightarrow> bool" where
  "numericIdentifier s =
     (s \<noteq> [] \<and> list_all isDigit s \<and> (length s = 1 \<or> hd s \<noteq> CHR ''0''))"

definition parseIdent :: "string \<Rightarrow> ident option" where
  "parseIdent s =
     (if s = [] \<or> \<not> list_all (\<lambda>c. isDigit c \<or> isLetterDash c) s then None
      else if list_all isDigit s
        then (if numericIdentifier s then Some (Num (digitsToNat s)) else None)
      else Some (Alnum s))"

fun parseIdents :: "string list \<Rightarrow> ident list option" where
  "parseIdents [] = Some []"
| "parseIdents (s # ss) =
     (case parseIdent s of None \<Rightarrow> None
      | Some i \<Rightarrow> (case parseIdents ss of None \<Rightarrow> None | Some is \<Rightarrow> Some (i # is)))"

definition validBuild :: "string \<Rightarrow> bool" where
  "validBuild b =
     list_all (\<lambda>i. i \<noteq> [] \<and> list_all (\<lambda>c. isDigit c \<or> isLetterDash c) i) (splitOn CHR ''.'' b)"

definition parseMain :: "string \<Rightarrow> (nat \<times> nat \<times> nat) option" where
  "parseMain m =
     (case splitOn CHR ''.'' m of
        [a, b, c] \<Rightarrow>
          (if numericIdentifier a \<and> numericIdentifier b \<and> numericIdentifier c
           then Some (digitsToNat a, digitsToNat b, digitsToNat c) else None)
      | _ \<Rightarrow> None)"

definition parseTail :: "string \<Rightarrow> ident list option" where
  "parseTail t =
     (case t of
        [] \<Rightarrow> Some []
      | c # r \<Rightarrow>
          (if c = CHR ''+'' then (if validBuild r then Some [] else None)
           else
             (let p = takeWhile (\<lambda>x. x \<noteq> CHR ''+'') r;
                  b = dropWhile (\<lambda>x. x \<noteq> CHR ''+'') r
              in if b = [] \<or> validBuild (tl b) then parseIdents (splitOn CHR ''.'' p)
                 else None)))"

definition parse :: "string \<Rightarrow> semver option" where
  "parse version =
     (let s = trim version;
          s1 = (case s of [] \<Rightarrow> [] | c # cs \<Rightarrow> if c = CHR ''v'' then cs else c # cs);
          m = takeWhile (\<lambda>x. x \<noteq> CHR ''-'' \<and> x \<noteq> CHR ''+'') s1;
          t = dropWhile (\<lambda>x. x \<noteq> CHR ''-'' \<and> x \<noteq> CHR ''+'') s1
      in case parseMain m of None \<Rightarrow> None
         | Some (a, b, c) \<Rightarrow>
             (case parseTail t of None \<Rightarrow> None
              | Some pre \<Rightarrow> Some \<lparr>major = a, minor = b, patch = c, prerelease = pre\<rparr>))"


text \<open>Precedence, as a key into a linear order.\<close>

fun identKey :: "ident \<Rightarrow> nat \<times> nat \<times> string" where
  "identKey (Num n) = (0, n, [])"
| "identKey (Alnum s) = (1, 0, s)"

definition svKey :: "semver \<Rightarrow> nat \<times> nat \<times> nat \<times> nat \<times> (nat \<times> nat \<times> string) list" where
  "svKey v =
     (major v, minor v, patch v, (if prerelease v = [] then 1 else 0),
      map identKey (prerelease v))"

text \<open>\<^verbatim>\<open>a.compare(b)\<close>: \<open>-1\<close>, \<open>0\<close> or \<open>1\<close>.\<close>

definition sv_compare :: "semver \<Rightarrow> semver \<Rightarrow> int" where
  "sv_compare a b = (if svKey a < svKey b then - 1 else if svKey a = svKey b then 0 else 1)"

definition starRange :: "semver \<Rightarrow> bool" where
  "starRange v = (prerelease v = [])"

text \<open>\<^verbatim>\<open>new Range(range)\<close>: the engine's own literal \<^verbatim>\<open>'*'\<close>, or the grammar.\<close>

definition rangeOf :: "range_grammar \<Rightarrow> string \<Rightarrow> (semver \<Rightarrow> bool) option" where
  "rangeOf G rng = (if rng = ''*'' then Some starRange else G rng)"


text \<open>
  The body of the \<^verbatim>\<open>forEach\<close> of \<^verbatim>\<open>maxSatisfying\<close>: \<^verbatim>\<open>max\<close> and \<^verbatim>\<open>maxSV\<close> are
  replaced only by a version that satisfies the range and compares strictly above the
  current one.
\<close>

definition maxSatisfying_step ::
  "(semver \<Rightarrow> bool) \<Rightarrow> (string \<times> semver) option \<Rightarrow> string \<Rightarrow> (string \<times> semver) option"
where
  "maxSatisfying_step p acc v =
     (case parse v of
        None \<Rightarrow> acc
      | Some s \<Rightarrow>
          (if p s \<and> (case acc of None \<Rightarrow> True | Some (m, ms) \<Rightarrow> sv_compare ms s = - 1)
           then Some (v, s) else acc))"

definition maxSatisfying :: "range_grammar \<Rightarrow> string list \<Rightarrow> string \<Rightarrow> string option" where
  "maxSatisfying G versions rng =
     (case rangeOf G rng of
        None \<Rightarrow> None
      | Some p \<Rightarrow> map_option fst (foldl (maxSatisfying_step p) None versions))"



section \<open>Errors\<close>

text \<open>
  The code throws \<^verbatim>\<open>Error\<close> objects that differ in their message only; each message is a
  constructor here, with the values the message interpolates.  \<open>External\<close> stands for
  what a collaborator (the Git host, the YAML parser) throws.
\<close>

datatype error =
    AssetNotFound string "string list"
  | NoMatchingVersion string string "string list"
  | AssetNotInManifest string
  | VersionNotFound string string
  | MissingSkillEntry string string
  | IntegrityMismatch string string string string
  | ConfigNotFound
  | ConfigInvalid
  | ManifestInvalid
  | DuplicateVersion string string
  | SourceNotDefined string
  | External string

section \<open>Version selection of install\<close>

text \<open>
  Lines 123 to 133 of \<^verbatim>\<open>AssetResolver.install\<close>.  \<^verbatim>\<open>versions.sort().reverse()\<close> works
  in place, so on the fallback path the list that the error message joins is the sorted and
  reversed one.  \<^verbatim>\<open>!selectedVersion\<close> holds for \<^verbatim>\<open>null\<close>, \<^verbatim>\<open>undefined\<close> and the empty
  string.
\<close>

definition install_selectVersion ::
  "range_grammar \<Rightarrow> string \<Rightarrow> string list \<Rightarrow> string \<Rightarrow> error + string"
where
  "install_selectVersion G assetId versions versionRange =
     (case (if versionRange = ''latest''
            then (case maxSatisfying G versions ''*'' of
                    Some v \<Rightarrow> (Some v, versions)
                  | None \<Rightarrow>
                      (case rev (sort versions) of
                         [] \<Rightarrow> (None, [])
                       | x # xs \<Rightarrow> (Some x, x # xs)))
            else (maxSatisfying G versions versionRange, versions))
      of (selectedVersion, versions') \<Rightarrow>
        (case selectedVersion of
           None \<Rightarrow> Inl (NoMatchingVersion versionRange assetId versions')
         | Some v \<Rightarrow>
             if truthy v then Inr v
             else Inl (NoMatchingVersion versionRange assetId versions')))"

section \<open>Data model (types.ts)\<close>

text \<open>
  A JavaScript object used as a dictionary (\<^verbatim>\<open>Record<string, T>\<close>) is an association list
  in the order in which \<^verbatim>\<open>Object.keys\<close> enumerates it; reading a key is \<^const>\<open>map_of\<close>
  and assigning one is \<^const>\<open>AList.update\<close>, which keeps the place of a key that is present
  and appends a new one.  An optional field is an \<open>option\<close>.  The \<^verbatim>\<open>runtime\<close> field of a
  manifest version is never read by the engine and is left out.
\<close>

datatype AssetKind = Prompt | Skill | Instruction

datatype provider = Github | Azure

record ParcaSource =
  s_provider :: provider
  s_url :: string

record ParcaAssetEntry =
  e_id :: string
  e_source :: string
  e_version :: string
  e_mapping :: "string option"

record ParcaConfig =
  c_schema :: string
  c_sources :: "(string \<times> ParcaSource) list"
  c_assets :: "ParcaAssetEntry list"

record ParcaManifestVersion =
  v_ref :: "string option"
  v_path :: string

record ParcaManifestAsset =
  a_kind :: AssetKind
  a_description :: "string option"
  a_versions :: "(string \<times> ParcaManifestVersion) list"

record ParcaManifest =
  m_schema :: string
  m_template :: "string option"
  m_assets :: "(string \<times> ParcaManifestAsset) list"

record ParcaLockedAsset =
  l_id :: string
  l_version :: string
  l_source :: string
  l_commit :: string
  l_sha256 :: string
  l_manifestHash :: string
  l_resolvedAt :: string

type_synonym ParcaLockfile = "ParcaLockedAsset list"

record ResolvedAsset =
  r_id :: string
  r_version :: string
  r_source :: string
  r_commit :: string
  r_sha256 :: string
  r_content :: string
  r_cachePath :: string
  r_mapping :: "string option"

section \<open>Collaborators and the state of the machine\<close>

text \<open>
  What a Git host answers is given by three functions (\<open>GitHost\<close>); a \<open>GitProvider\<close> is
  such a host together with the URL it was created for.  The environment \<open>env\<close> collects
  everything the engine takes from outside: the hash function, the clock, the cache root,
  the hosts, the YAML parser and \<^verbatim>\<open>JSON.stringify\<close> on manifests, the range grammar of the
  semver package and the \<^verbatim>\<open>pathname\<close> that \<^verbatim>\<open>new URL\<close> gives (\<open>None\<close> when it throws).
\<close>

record GitHost =
  hostResolveRef :: "string \<Rightarrow> error + string"
  hostFetchFile :: "string \<Rightarrow> string \<Rightarrow> error + string"
  hostFetchDirectory :: "string \<Rightarrow> string \<Rightarrow> error + (string \<times> string) list"

record GitProvider =
  g_provider :: provider
  repoUrl :: string
  host :: GitHost

record env =
  sha256hex :: "string \<Rightarrow> string"
  now :: string
  cacheRoot :: string
  remote :: "provider \<Rightarrow> string \<Rightarrow> GitHost"
  yamlLoadManifest :: "string \<Rightarrow> error + ParcaManifest"
  stringifyManifest :: "ParcaManifest \<Rightarrow> string"
  ranges :: range_grammar
  urlPathname :: "string \<Rightarrow> string option"

text \<open>
  The state: the consumer declaration and the lockfile (absent, or their logical content),
  the cache (for every key \<open>(source, id, version)\<close> the version directory, absent or the
  regular files below it by relative path), the symbolic links of the workspace (target
  and what it points to), and the log of the calls made to Git hosts and to the progress
  sink.  File-system calls are taken to succeed, the three kinds of file are taken to be
  disjoint, and the \<^verbatim>\<open>.gitignore\<close> bookkeeping of the workspace mapper is not modelled.
\<close>

datatype event =
    ResolveRef string string
  | FetchFile string string string
  | FetchDirectory string string string
  | OnAssetStart string string
  | OnAssetDone string string
  | OnAssetError string error

record world =
  configFile :: "ParcaConfig option"
  lockfileFile :: "ParcaLockfile option"
  cache :: "string \<times> string \<times> string \<Rightarrow> (string \<times> string) list option"
  links :: "(string \<times> string) list"
  events :: "event list"

definition logEvent :: "event \<Rightarrow> world \<Rightarrow> world" where
  "logEvent ev w = w\<lparr>events := events w @ [ev]\<rparr>"

subsection \<open>GitProvider\<close>

definition createGitProvider :: "env \<Rightarrow> provider \<Rightarrow> string \<Rightarrow> GitProvider" where
  "createGitProvider E p url = \<lparr>g_provider = p, repoUrl = url, host = remote E p url\<rparr>"

definition resolveRef :: "GitProvider \<Rightarrow> string \<Rightarrow> world \<Rightarrow> world \<times> (error + string)" where
  "resolveRef git ref w =
     (logEvent (ResolveRef (repoUrl git) ref) w, hostResolveRef (host git) ref)"

definition fetchFile ::
  "GitProvider \<Rightarrow> string \<Rightarrow> string \<Rightarrow> world \<Rightarrow> world \<times> (error + string)"
where
  "fetchFile git filePath ref w =
     (logEvent (FetchFile (repoUrl git) filePath ref) w, hostFetchFile (host git) filePath ref)"

definition fetchDirectory ::
  "GitProvider \<Rightarrow> string \<Rightarrow> string \<Rightarrow> world \<Rightarrow> world \<times> (error + (string \<times> string) list)"
where
  "fetchDirectory git dirPath ref w =
     (logEvent (FetchDirectory (repoUrl git) dirPath ref) w,
      hostFetchDirectory (host git) dirPath ref)"

subsection \<open>CacheManager (cacheManager.ts)\<close>

definition getAssetDir :: "env \<Rightarrow> string \<Rightarrow> string \<Rightarrow> string \<Rightarrow> string" where
  "getAssetDir E sourceAlias assetId version =
     cacheRoot E @ ''/'' @ sourceAlias @ ''/'' @ assetId @ ''/'' @ version"

definition getAssetPath :: "env \<Rightarrow> string \<Rightarrow> string \<Rightarrow> string \<Rightarrow> AssetKind \<Rightarrow> string" where
  "getAssetPath E sourceAlias assetId version kind =
     (if kind = Skill then getAssetDir E sourceAlias assetId version
      else getAssetDir E sourceAlias assetId version @ ''/'' @ assetId @ ''.md'')"

definition computeHashFromString :: "env \<Rightarrow> string \<Rightarrow> string" where
  "computeHashFromString E content = sha256hex E (normalizeLF content)"

text \<open>
  \<^verbatim>\<open>computeDirectoryHash\<close>: the files in the order of their sorted paths, each feeding its
  relative path and its normalized content into one hash.
\<close>

definition computeDirectoryHash :: "env \<Rightarrow> (string \<times> string) list \<Rightarrow> string" where
  "computeDirectoryHash E files =
     sha256hex E (concat (map (\<lambda>(p, c). p @ normalizeLF c) (sort_key fst files)))"

text \<open>\<^verbatim>\<open>fs.readdirSync(dir)\<close>: the names directly below the directory.\<close>

definition readdir :: "(string \<times> string) list \<Rightarrow> string list" where
  "readdir files = remdups (map (\<lambda>(p, c). takeWhile (\<lambda>x. x \<noteq> CHR ''/'') p) files)"

definition isCached ::
  "env \<Rightarrow> world \<Rightarrow> string \<Rightarrow> string \<Rightarrow> string \<Rightarrow> AssetKind \<Rightarrow> string \<Rightarrow> bool"
where
  "isCached E w sourceAlias assetId version kind expectedSha256 =
     (case cache w (sourceAlias, assetId, version) of
        None \<Rightarrow> False
      | Some files \<Rightarrow>
          if kind = Skill then
            (if \<not> list_ex (\<lambda>f. toLowerCase f = ''skill.md'') (readdir files) then False
             else if truthy expectedSha256 then computeDirectoryHash E files = expectedSha256
             else True)
          else
            (case map_of files (assetId @ ''.md'') of
               None \<Rightarrow> False
             | Some content \<Rightarrow>
                 if truthy expectedSha256
                 then computeHashFromString E content = expectedSha256
                 else True))"

definition writeToCache ::
  "env \<Rightarrow> string \<Rightarrow> string \<Rightarrow> string \<Rightarrow> string \<Rightarrow> world \<Rightarrow> world \<times> string \<times> string"
where
  "writeToCache E sourceAlias assetId version content w =
     (let normalized = normalizeLF content;
          dir = (case cache w (sourceAlias, assetId, version) of None \<Rightarrow> [] | Some fs \<Rightarrow> fs)
      in (w\<lparr>cache := (cache w)((sourceAlias, assetId, version) \<mapsto>
                          AList.update (assetId @ ''.md'') normalized dir)\<rparr>,
          getAssetPath E sourceAlias assetId version Prompt,
          computeHashFromString E normalized))"

definition writeDirectoryToCache ::
  "env \<Rightarrow> string \<Rightarrow> string \<Rightarrow> string \<Rightarrow> (string \<times> string) list \<Rightarrow> world
     \<Rightarrow> world \<times> string \<times> string"
where
  "writeDirectoryToCache E sourceAlias assetId version files w =
     (let written = foldl (\<lambda>d (p, c). AList.update p (normalizeLF c) d) [] files
      in (w\<lparr>cache := (cache w)((sourceAlias, assetId, version) \<mapsto> written)\<rparr>,
          getAssetDir E sourceAlias assetId version,
          computeDirectoryHash E written))"

definition readFromCache ::
  "world \<Rightarrow> string \<Rightarrow> string \<Rightarrow> string \<Rightarrow> AssetKind \<Rightarrow> string option"
where
  "readFromCache w sourceAlias assetId version kind =
     (case cache w (sourceAlias, assetId, version) of
        None \<Rightarrow> None
      | Some files \<Rightarrow>
          if kind = Skill then
            (case find (\<lambda>f. toLowerCase f = ''skill.md'') (readdir files) of
               None \<Rightarrow> None
             | Some skillFile \<Rightarrow> map_of files skillFile)
          else map_of files (assetId @ ''.md''))"

subsection \<open>LockfileManager (the Ledger)\<close>

definition lockfile_load :: "world \<Rightarrow> ParcaLockfile" where
  "lockfile_load w = (case lockfileFile w of None \<Rightarrow> [] | Some l \<Rightarrow> l)"

definition lockfile_save :: "ParcaLockfile \<Rightarrow> world \<Rightarrow> world" where
  "lockfile_save l w = w\<lparr>lockfileFile := Some l\<rparr>"

definition findAsset :: "ParcaLockfile \<Rightarrow> string \<Rightarrow> string \<Rightarrow> ParcaLockedAsset option" where
  "findAsset lockfile i s = find (\<lambda>a. l_id a = i \<and> l_source a = s) lockfile"

definition upsertAsset :: "ParcaLockfile \<Rightarrow> ParcaLockedAsset \<Rightarrow> ParcaLockfile" where
  "upsertAsset lockfile entry =
     filter (\<lambda>a. \<not> (l_id a = l_id entry \<and> l_source a = l_source entry)) lockfile @ [entry]"

definition removeAsset :: "ParcaLockfile \<Rightarrow> string \<Rightarrow> string \<Rightarrow> ParcaLockfile" where
  "removeAsset lockfile i s = filter (\<lambda>a. \<not> (l_id a = i \<and> l_source a = s)) lockfile"

subsection \<open>WorkspaceMapper\<close>

definition createSymlink :: "string \<Rightarrow> string \<Rightarrow> string \<Rightarrow> AssetKind \<Rightarrow> world \<Rightarrow> world" where
  "createSymlink cachedPath mapping assetId kind w =
     (let targetPath =
            (if endsWith mapping ''/'' \<or> endsWith mapping [CHR 0x5C]
             then (if kind = Skill then mapping @ assetId else mapping @ assetId @ ''.md'')
             else mapping)
      in w\<lparr>links := AList.update targetPath cachedPath (links w)\<rparr>)"

text \<open>\<^verbatim>\<open>if (entry.mapping) createSymlink(...)\<close>\<close>

definition projectMapping ::
  "string \<Rightarrow> ParcaAssetEntry \<Rightarrow> AssetKind \<Rightarrow> world \<Rightarrow> world"
where
  "projectMapping cachedPath entry kind w =
     (case e_mapping entry of
        None \<Rightarrow> w
      | Some mapping \<Rightarrow>
          if truthy mapping then createSymlink cachedPath mapping (e_id entry) kind w else w)"

subsection \<open>ManifestResolver\<close>

definition MANIFEST_FILENAME :: string where
  "MANIFEST_FILENAME = ''parca-manifest.yaml''"

text \<open>
  \<^verbatim>\<open>validate\<close>: the checks on the shape of \<^verbatim>\<open>assets\<close>, \<^verbatim>\<open>kind\<close> and \<^verbatim>\<open>versions\<close> hold by
  the types; the one on \<^verbatim>\<open>schema\<close> remains.
\<close>

definition manifest_validate :: "ParcaManifest \<Rightarrow> bool" where
  "manifest_validate manifest = truthy (m_schema manifest)"

definition fetchManifest ::
  "env \<Rightarrow> GitProvider \<Rightarrow> string \<Rightarrow> world \<Rightarrow> world \<times> (error + ParcaManifest)"
where
  "fetchManifest E gitProvider ref w =
     (case fetchFile gitProvider MANIFEST_FILENAME ref w of
        (w1, Inl e) \<Rightarrow> (w1, Inl e)
      | (w1, Inr content) \<Rightarrow>
          (case yamlLoadManifest E content of
             Inl e \<Rightarrow> (w1, Inl e)
           | Inr manifest \<Rightarrow>
               if manifest_validate manifest then (w1, Inr manifest)
               else (w1, Inl ManifestInvalid)))"

subsection \<open>ConfigLoader (configLoader.ts)\<close>

definition config_validate :: "ParcaConfig \<Rightarrow> bool" where
  "config_validate config =
     (truthy (c_schema config) \<and>
      list_all (\<lambda>asset. truthy (e_id asset) \<and> truthy (e_source asset) \<and> truthy (e_version asset)
                  \<and> map_of (c_sources config) (e_source asset) \<noteq> None)
        (c_assets config))"

definition config_load :: "world \<Rightarrow> error + ParcaConfig" where
  "config_load w =
     (case configFile w of
        None \<Rightarrow> Inl ConfigNotFound
      | Some parsed \<Rightarrow> if config_validate parsed then Inr parsed else Inl ConfigInvalid)"

definition config_save :: "ParcaConfig \<Rightarrow> world \<Rightarrow> world" where
  "config_save config w = w\<lparr>configFile := Some config\<rparr>"

definition config_init :: "world \<Rightarrow> world \<times> ParcaConfig" where
  "config_init w =
     (let config = \<lparr>c_schema = ''1.0'', c_sources = [], c_assets = []\<rparr>
      in (config_save config w, config))"

definition deriveAlias :: "env \<Rightarrow> string \<Rightarrow> string" where
  "deriveAlias E url =
     (case urlPathname E url of
        None \<Rightarrow> ''default''
      | Some pathname \<Rightarrow>
          (let stripped = (if endsWith pathname ''.git''
                           then take (length pathname - 4) pathname else pathname);
               parts = filter truthy (splitOn CHR ''/'' stripped)
           in if length parts \<ge> 2 then parts ! (length parts - 2)
              else (case parts of [] \<Rightarrow> ''default'' | p # ps \<Rightarrow> p)))"

definition ensureSource ::
  "env \<Rightarrow> string \<Rightarrow> provider \<Rightarrow> world \<Rightarrow> world \<times> ParcaConfig \<times> string"
where
  "ensureSource E url p w =
     (case (case config_load w of Inr c \<Rightarrow> (w, c) | Inl e \<Rightarrow> config_init w) of
        (w1, config) \<Rightarrow>
          (case find (\<lambda>(alias, src). s_url src = url) (c_sources config) of
             Some (alias, src) \<Rightarrow> (w1, config, alias)
           | None \<Rightarrow>
               (let alias = deriveAlias E url;
                    config' = config\<lparr>c_sources :=
                      AList.update alias \<lparr>s_provider = p, s_url = url\<rparr> (c_sources config)\<rparr>
                in (config_save config' w1, config', alias))))"

definition addAsset :: "ParcaConfig \<Rightarrow> ParcaAssetEntry \<Rightarrow> world \<Rightarrow> world \<times> ParcaConfig" where
  "addAsset config entry w =
     (let config' = config\<lparr>c_assets :=
            filter (\<lambda>a. \<not> (e_id a = e_id entry \<and> e_source a = e_source entry)) (c_assets config)
              @ [entry]\<rparr>
      in (config_save config' w, config'))"

definition inferProvider :: "string \<Rightarrow> provider" where
  "inferProvider url =
     (if includesStr url ''dev.azure.com'' \<or> includesStr url ''visualstudio.com''
      then Azure else Github)"

section \<open>AssetResolver\<close>

subsection \<open>resolveAsset\<close>

text \<open>\<^verbatim>\<open>versionMeta.ref || manifestRef\<close>\<close>

definition effectiveRefOf :: "ParcaManifestVersion \<Rightarrow> string \<Rightarrow> string" where
  "effectiveRefOf versionMeta manifestRef =
     (case v_ref versionMeta of
        None \<Rightarrow> manifestRef
      | Some r \<Rightarrow> if truthy r then r else manifestRef)"

text \<open>
  The condition under which \<^verbatim>\<open>resolveAsset\<close> returns from the cache (lines 260 to 262 of
  the resolver).
\<close>

definition fastPath ::
  "env \<Rightarrow> world \<Rightarrow> ParcaAssetEntry \<Rightarrow> AssetKind \<Rightarrow> string \<Rightarrow> bool
     \<Rightarrow> ParcaLockedAsset option \<Rightarrow> bool"
where
  "fastPath E w entry kind commit allowUpdate locked =
     (case locked of
        None \<Rightarrow> False
      | Some l \<Rightarrow>
          l_version l = e_version entry \<and> l_commit l = commit \<and> \<not> allowUpdate
          \<and> isCached E w (e_source entry) (e_id entry) (e_version entry) kind (l_sha256 l))"

text \<open>
  The fetch of the slow path (lines 283 to 312): the content goes into the cache, and the
  hash comes back from the write.  The result is the hash, the cache path and the content.
\<close>

definition fetchAndCache ::
  "env \<Rightarrow> GitProvider \<Rightarrow> ParcaAssetEntry \<Rightarrow> AssetKind \<Rightarrow> ParcaManifestVersion \<Rightarrow> string
     \<Rightarrow> world \<Rightarrow> world \<times> (error + string \<times> string \<times> string)"
where
  "fetchAndCache E git entry kind versionMeta effectiveRef w =
     (if kind = Skill then
        (case fetchDirectory git (v_path versionMeta) effectiveRef w of
           (w1, Inl e) \<Rightarrow> (w1, Inl e)
         | (w1, Inr files) \<Rightarrow>
             (case find (\<lambda>(p, c). toLowerCase p = ''skill.md'') files of
                None \<Rightarrow> (w1, Inl (MissingSkillEntry (e_id entry) (v_path versionMeta)))
              | Some (p, content) \<Rightarrow>
                  (case writeDirectoryToCache E (e_source entry) (e_id entry) (e_version entry)
                          files w1 of
                     (w2, dirPath, sha256) \<Rightarrow> (w2, Inr (sha256, dirPath, content)))))
      else
        (case fetchFile git (v_path versionMeta) effectiveRef w of
           (w1, Inl e) \<Rightarrow> (w1, Inl e)
         | (w1, Inr content) \<Rightarrow>
             (case writeToCache E (e_source entry) (e_id entry) (e_version entry) content w1 of
                (w2, filePath, sha256) \<Rightarrow> (w2, Inr (sha256, filePath, content)))))"

text \<open>
  The integrity check (line 315): the hash the lockfile expects, when the check fails.
\<close>

definition integrityGate :: "ParcaLockedAsset option \<Rightarrow> string \<Rightarrow> bool \<Rightarrow> string option" where
  "integrityGate locked sha256 allowUpdate =
     (case locked of
        None \<Rightarrow> None
      | Some l \<Rightarrow>
          if truthy (l_sha256 l) \<and> l_sha256 l \<noteq> sha256 \<and> \<not> allowUpdate
          then Some (l_sha256 l) else None)"

definition resolveAsset ::
  "env \<Rightarrow> ParcaAssetEntry \<Rightarrow> ParcaManifest \<Rightarrow> GitProvider \<Rightarrow> string \<Rightarrow> bool \<Rightarrow> world
     \<Rightarrow> world \<times> (error + ResolvedAsset)"
where
  "resolveAsset E entry manifest git manifestRef allowUpdate w =
     (case map_of (m_assets manifest) (e_id entry) of
        None \<Rightarrow> (w, Inl (AssetNotInManifest (e_id entry)))
      | Some assetMeta \<Rightarrow>
     (case map_of (a_versions assetMeta) (e_version entry) of
        None \<Rightarrow> (w, Inl (VersionNotFound (e_version entry) (e_id entry)))
      | Some versionMeta \<Rightarrow>
     (let effectiveRef = effectiveRefOf versionMeta manifestRef
      in case resolveRef git effectiveRef w of
        (w1, Inl e) \<Rightarrow> (w1, Inl e)
      | (w1, Inr commit) \<Rightarrow>
     (let lockfile = lockfile_load w1;
          locked = findAsset lockfile (e_id entry) (e_source entry);
          kind = a_kind assetMeta
      in if fastPath E w1 entry kind commit allowUpdate locked then
           (let cachedPath = getAssetPath E (e_source entry) (e_id entry) (e_version entry) kind
            in (projectMapping cachedPath entry kind w1,
                Inr \<lparr>r_id = e_id entry, r_version = e_version entry, r_source = e_source entry,
                     r_commit = commit,
                     r_sha256 = (case locked of None \<Rightarrow> [] | Some l \<Rightarrow> l_sha256 l),
                     r_content =
                       (case readFromCache w1 (e_source entry) (e_id entry) (e_version entry) kind
                        of None \<Rightarrow> [] | Some c \<Rightarrow> c),
                     r_cachePath = cachedPath, r_mapping = e_mapping entry\<rparr>))
         else
     (case fetchAndCache E git entry kind versionMeta effectiveRef w1 of
        (w2, Inl e) \<Rightarrow> (w2, Inl e)
      | (w2, Inr (sha256, cachedPath, content)) \<Rightarrow>
     (case integrityGate locked sha256 allowUpdate of
        Some expected \<Rightarrow>
          (w2, Inl (IntegrityMismatch (e_id entry) (e_version entry) expected sha256))
      | None \<Rightarrow>
     (let manifestHash = computeHashFromString E (stringifyManifest E manifest);
          lockedEntry = \<lparr>l_id = e_id entry, l_version = e_version entry,
                         l_source = e_source entry, l_commit = commit, l_sha256 = sha256,
                         l_manifestHash = manifestHash, l_resolvedAt = now E\<rparr>;
          w3 = lockfile_save (upsertAsset lockfile lockedEntry) w2
      in (projectMapping cachedPath entry kind w3,
          Inr \<lparr>r_id = e_id entry, r_version = e_version entry, r_source = e_source entry,
               r_commit = commit, r_sha256 = sha256, r_content = content,
               r_cachePath = cachedPath, r_mapping = e_mapping entry\<rparr>))))))))"

subsection \<open>resolveAll\<close>

text \<open>
  The grouping loop (lines 177 to 183): a \<^verbatim>\<open>Map\<close> from source alias to the entries of that
  source, both in the order of first insertion.
\<close>

definition bySource_push ::
  "(string \<times> ParcaAssetEntry list) list \<Rightarrow> ParcaAssetEntry
     \<Rightarrow> (string \<times> ParcaAssetEntry list) list"
where
  "bySource_push m asset =
     (case map_of m (e_source asset) of
        None \<Rightarrow> m @ [(e_source asset, [asset])]
      | Some assets \<Rightarrow> AList.update (e_source asset) (assets @ [asset]) m)"

definition groupBySource :: "ParcaAssetEntry list \<Rightarrow> (string \<times> ParcaAssetEntry list) list" where
  "groupBySource assets = foldl bySource_push [] assets"

text \<open>Line 202: the revision at which the manifest is read for one entry.\<close>

definition manifestRefFor :: "ParcaLockfile \<Rightarrow> ParcaAssetEntry \<Rightarrow> string" where
  "manifestRefFor lockfile asset =
     (case findAsset lockfile (e_id asset) (e_source asset) of
        None \<Rightarrow> ''main''
      | Some locked \<Rightarrow> if l_version locked = e_version asset then l_commit locked else ''main'')"

text \<open>
  The body of the inner loop (lines 197 to 211) for one entry: what is thrown inside the
  \<^verbatim>\<open>try\<close> goes to the progress sink and the loop goes on.
\<close>

definition resolveAll_asset ::
  "env \<Rightarrow> GitProvider \<Rightarrow> ParcaLockfile \<Rightarrow> world \<times> ResolvedAsset list \<Rightarrow> ParcaAssetEntry
     \<Rightarrow> world \<times> ResolvedAsset list"
where
  "resolveAll_asset E git lockfile acc asset =
     (case acc of (w, results) \<Rightarrow>
       (let w0 = logEvent (OnAssetStart (e_id asset) (e_version asset)) w;
            manifestRef = manifestRefFor lockfile asset
        in case fetchManifest E git manifestRef w0 of
             (w1, Inl e) \<Rightarrow> (logEvent (OnAssetError (e_id asset) e) w1, results)
           | (w1, Inr manifest) \<Rightarrow>
               (case resolveAsset E asset manifest git manifestRef False w1 of
                  (w2, Inl e) \<Rightarrow> (logEvent (OnAssetError (e_id asset) e) w2, results)
                | (w2, Inr resolved) \<Rightarrow>
                    (logEvent (OnAssetDone (e_id asset) (e_version asset)) w2,
                     results @ [resolved]))))"

text \<open>The body of the outer loop (lines 185 to 213) for one source.\<close>

definition resolveAll_source ::
  "env \<Rightarrow> ParcaConfig \<Rightarrow> ParcaLockfile \<Rightarrow> world \<times> ResolvedAsset list
     \<Rightarrow> string \<times> ParcaAssetEntry list \<Rightarrow> world \<times> ResolvedAsset list"
where
  "resolveAll_source E config lockfile acc grp =
     (case grp of (sourceAlias, assets) \<Rightarrow>
       (case map_of (c_sources config) sourceAlias of
          None \<Rightarrow>
            (case acc of (w, results) \<Rightarrow>
               (foldl (\<lambda>w' a. logEvent (OnAssetError (e_id a) (SourceNotDefined sourceAlias)) w')
                  w assets,
                results))
        | Some source \<Rightarrow>
            foldl (resolveAll_asset E (createGitProvider E (s_provider source) (s_url source))
                     lockfile)
              acc assets))"

definition resolveAll :: "env \<Rightarrow> world \<Rightarrow> world \<times> (error + ResolvedAsset list)" where
  "resolveAll E w =
     (case config_load w of
        Inl e \<Rightarrow> (w, Inl e)
      | Inr config \<Rightarrow>
          (case foldl (resolveAll_source E config (lockfile_load w)) (w, [])
                  (groupBySource (c_assets config)) of
             (w', results) \<Rightarrow> (w', Inr results)))"

subsection \<open>install\<close>

definition getDefaultMapping :: "AssetKind \<Rightarrow> string \<Rightarrow> string" where
  "getDefaultMapping kind assetId =
     (case kind of
        Prompt \<Rightarrow> ''.github/prompts/'' @ assetId @ ''.prompt.md''
      | Instruction \<Rightarrow> ''.github/instructions/'' @ assetId @ ''.instructions.md''
      | Skill \<Rightarrow> ''.github/skills/'' @ assetId @ ''/SKILL.md'')"

text \<open>
  \<^verbatim>\<open>install\<close> returns a resolved asset, or the entry that is there already together with
  the version it selected.
\<close>

datatype install_result =
    Installed ResolvedAsset
  | AlreadyInstalled ParcaAssetEntry string

definition install ::
  "env \<Rightarrow> string \<Rightarrow> string \<Rightarrow> string \<Rightarrow> bool \<Rightarrow> world \<Rightarrow> world \<times> (error + install_result)"
where
  "install E url assetId versionRange forceReinstall w =
     (let p = inferProvider url;
          git = createGitProvider E p url
      in case resolveRef git ''main'' w of
        (w1, Inl e) \<Rightarrow> (w1, Inl e)
      | (w1, Inr registryCommit) \<Rightarrow>
     (case fetchManifest E git registryCommit w1 of
        (w2, Inl e) \<Rightarrow> (w2, Inl e)
      | (w2, Inr manifest) \<Rightarrow>
     (case map_of (m_assets manifest) assetId of
        None \<Rightarrow> (w2, Inl (AssetNotFound assetId (map fst (m_assets manifest))))
      | Some assetMeta \<Rightarrow>
     (case install_selectVersion (ranges E) assetId (map fst (a_versions assetMeta)) versionRange of
        Inl e \<Rightarrow> (w2, Inl e)
      | Inr version \<Rightarrow>
     (case config_load w2 of
        Inl e \<Rightarrow> (w2, Inl e)
      | Inr config \<Rightarrow>
     (case (if forceReinstall then None else find (\<lambda>a. e_id a = assetId) (c_assets config)) of
        Some existing \<Rightarrow> (w2, Inr (AlreadyInstalled existing version))
      | None \<Rightarrow>
     (case ensureSource E url p w2 of
        (w3, updatedConfig, alias) \<Rightarrow>
     (let entry = \<lparr>e_id = assetId, e_source = alias, e_version = version,
                   e_mapping = Some (getDefaultMapping (a_kind assetMeta) assetId)\<rparr>
      in case resolveAsset E entry manifest git registryCommit True w3 of
        (w4, Inl e) \<Rightarrow> (w4, Inl e)
      | (w4, Inr resolved) \<Rightarrow>
          (fst (addAsset updatedConfig entry w4), Inr (Installed resolved))))))))))"

section \<open>Publisher\<close>

text \<open>
  \<^verbatim>\<open>publishVersion\<close> with the answer of \<^verbatim>\<open>git rev-parse HEAD\<close> as an argument (\<open>None\<close> when
  the command fails, which the code turns into a warning).  The result is the manifest that
  \<^verbatim>\<open>saveManifest\<close> writes; on an error nothing is written.
\<close>

definition hasRef :: "ParcaManifestVersion \<Rightarrow> bool" where
  "hasRef versionMeta = (case v_ref versionMeta of None \<Rightarrow> False | Some r \<Rightarrow> truthy r)"





section \<open>Words of the claims, and inputs for the examples\<close>


text \<open>A range grammar that knows the one range \<^verbatim>\<open>^1.0.0\<close>.\<close>

definition caretOne :: range_grammar where
  "caretOne r =
     (if r = ''^1.0.0'' then Some (\<lambda>v. major v = 1 \<and> prerelease v = []) else None)"

text \<open>
  A small world for the examples, after the repository's integration test: one prompt
  \<^verbatim>\<open>test-asset\<close> at version \<^verbatim>\<open>1.0.0\<close> with content at \<^verbatim>\<open>prompts/test.md\<close>, and a second prompt
  \<^verbatim>\<open>other-asset\<close>.  The file read \<^verbatim>\<open># Hello\<close> at commit \<^verbatim>\<open>c1\<close>; the branches \<^verbatim>\<open>main\<close> and
  \<^verbatim>\<open>stable\<close> have since moved to commit \<^verbatim>\<open>c2\<close>, where it reads \<^verbatim>\<open># Changed\<close>.  The repository
  \<open>urlX\<close> declares the version without a ref, the repository \<open>urlP\<close> declares it with the
  ref \<^verbatim>\<open>stable\<close>.  The stand-in for SHA-256 puts a prefix before its argument.
\<close>

definition urlX :: string where
  "urlX = ''https://github.com/test/repo''"

definition urlP :: string where
  "urlP = ''https://github.com/test/pinned''"

definition manifestX :: ParcaManifest where
  "manifestX =
     \<lparr>m_schema = ''1.0'', m_template = None,
      m_assets =
        [(''test-asset'',
          \<lparr>a_kind = Prompt, a_description = Some ''Test prompt'',
           a_versions = [(''1.0.0'', \<lparr>v_ref = None, v_path = ''prompts/test.md''\<rparr>)]\<rparr>),
         (''other-asset'',
          \<lparr>a_kind = Prompt, a_description = None,
           a_versions = [(''1.0.0'', \<lparr>v_ref = None, v_path = ''prompts/other.md''\<rparr>)]\<rparr>)]\<rparr>"

definition manifestP :: ParcaManifest where
  "manifestP =
     \<lparr>m_schema = ''1.0'', m_template = None,
      m_assets =
        [(''test-asset'',
          \<lparr>a_kind = Prompt, a_description = Some ''Test prompt'',
           a_versions =
             [(''1.0.0'', \<lparr>v_ref = Some ''stable'', v_path = ''prompts/test.md''\<rparr>)]\<rparr>)]\<rparr>"

definition hostOf :: "string \<Rightarrow> GitHost" where
  "hostOf manifestText =
     \<lparr>hostResolveRef = (\<lambda>r. Inr (if r = ''main'' \<or> r = ''stable'' then ''c2'' else r)),
      hostFetchFile =
        (\<lambda>p r. if p = MANIFEST_FILENAME then Inr manifestText
               else if p = ''prompts/test.md''
                 then Inr (if r = ''c1'' then ''# Hello'' else ''# Changed'')
               else if p = ''prompts/other.md'' then Inr ''# Other''
               else Inl (External ''404'')),
      hostFetchDirectory = (\<lambda>p r. Inl (External ''404''))\<rparr>"

definition envX :: env where
  "envX =
     \<lparr>sha256hex = (\<lambda>s. ''sha256:'' @ s),
      now = ''2026-01-01T00:00:00.000Z'',
      cacheRoot = ''/cache'',
      remote = (\<lambda>p u. if u = urlP then hostOf ''P'' else hostOf ''X''),
      yamlLoadManifest =
        (\<lambda>s. if s = ''X'' then Inr manifestX else if s = ''P'' then Inr manifestP
              else Inl (External ''yaml'')),
      stringifyManifest = (\<lambda>m. ''json''),
      ranges = caretOne,
      urlPathname = (\<lambda>u. Some ''/test/repo'')\<rparr>"

definition entryX :: ParcaAssetEntry where
  "entryX =
     \<lparr>e_id = ''test-asset'', e_source = ''test'', e_version = ''1.0.0'',
      e_mapping = Some ''.github/prompts/test-asset.prompt.md''\<rparr>"

definition entryY :: ParcaAssetEntry where
  "entryY =
     \<lparr>e_id = ''other-asset'', e_source = ''test'', e_version = ''1.0.0'',
      e_mapping = Some ''.github/prompts/other-asset.prompt.md''\<rparr>"

definition lockedX :: ParcaLockedAsset where
  "lockedX =
     \<lparr>l_id = ''test-asset'', l_version = ''1.0.0'', l_source = ''test'', l_commit = ''c1'',
      l_sha256 = ''sha256:# Hello'', l_manifestHash = ''sha256:json'',
      l_resolvedAt = ''2025-01-01T00:00:00.000Z''\<rparr>"

text \<open>
  The workspace after \<^verbatim>\<open>test-asset\<close> was installed from the repository \<open>url\<close> at commit
  \<^verbatim>\<open>c1\<close>: declared, locked and cached.
\<close>

definition wLocked :: "string \<Rightarrow> world" where
  "wLocked url =
     \<lparr>configFile = Some \<lparr>c_schema = ''1.0'',
                          c_sources = [(''test'', \<lparr>s_provider = Github, s_url = url\<rparr>)],
                          c_assets = [entryX]\<rparr>,
      lockfileFile = Some [lockedX],
      cache = [(''test'', ''test-asset'', ''1.0.0'') \<mapsto> [(''test-asset.md'', ''# Hello'')]],
      links = [(''.github/prompts/test-asset.prompt.md'',
                ''/cache/test/test-asset/1.0.0/test-asset.md'')],
      events = []\<rparr>"

text \<open>A workspace that declares two assets of one source and has resolved nothing yet.\<close>

definition wTwo :: world where
  "wTwo =
     \<lparr>configFile = Some \<lparr>c_schema = ''1.0'',
                          c_sources = [(''test'', \<lparr>s_provider = Github, s_url = urlX\<rparr>)],
                          c_assets = [entryX, entryY]\<rparr>,
      lockfileFile = None,
      cache = Map.empty,
      links = [],
      events = []\<rparr>"

text \<open>
  A workspace in which \<^verbatim>\<open>test-asset\<close> is declared from another source, under the alias
  \<^verbatim>\<open>mirror\<close>.
\<close>

definition entryM :: ParcaAssetEntry where
  "entryM =
     \<lparr>e_id = ''test-asset'', e_source = ''mirror'', e_version = ''0.9.0'', e_mapping = None\<rparr>"

definition wMirror :: world where
  "wMirror =
     \<lparr>configFile = Some \<lparr>c_schema = ''1.0'',
                          c_sources = [(''mirror'', \<lparr>s_provider = Github,
                                                     s_url = ''https://github.com/mirror/repo''\<rparr>)],
                          c_assets = [entryM]\<rparr>,
      lockfileFile = None,
      cache = Map.empty,
      links = [],
      events = []\<rparr>"

text \<open>\<open>covered m a\<close>: the entry \<open>a\<close> is in the group of its source in the grouping \<open>m\<close>.\<close>

definition covered :: "(string \<times> ParcaAssetEntry list) list \<Rightarrow> ParcaAssetEntry \<Rightarrow> bool" where
  "covered m a = (\<exists>as. (e_source a, as) \<in> set m \<and> a \<in> set as)"









section \<open>Version selection\<close>




















section \<open>Frame and trace of the resolver\<close>

lemma logEvent_fields:
  "configFile (logEvent ev w) = configFile w"
  "lockfileFile (logEvent ev w) = lockfileFile w"
  "cache (logEvent ev w) = cache w"
  "links (logEvent ev w) = links w"
  "events (logEvent ev w) = events w @ [ev]"
  by (simp_all add: logEvent_def)

lemma resolveRef_fst: "fst (resolveRef git r w) = logEvent (ResolveRef (repoUrl git) r) w"
  by (simp add: resolveRef_def)

lemma resolveRef_snd: "snd (resolveRef git r w) = hostResolveRef (host git) r"
  by (simp add: resolveRef_def)

lemma lockfile_load_logEvent: "lockfile_load (logEvent ev w) = lockfile_load w"
  by (simp add: lockfile_load_def logEvent_fields)

lemma isCached_logEvent: "isCached E (logEvent ev w) s i v k x = isCached E w s i v k x"
  by (simp add: isCached_def logEvent_fields)

lemma readFromCache_logEvent: "readFromCache (logEvent ev w) s i v k = readFromCache w s i v k"
  by (simp add: readFromCache_def logEvent_fields)

lemma fastPath_logEvent: "fastPath E (logEvent ev w) e k c a l = fastPath E w e k c a l"
  by (simp add: fastPath_def isCached_logEvent split: option.split)

lemma projectMapping_fields:
  "configFile (projectMapping p e k w) = configFile w"
  "lockfileFile (projectMapping p e k w) = lockfileFile w"
  "cache (projectMapping p e k w) = cache w"
  "events (projectMapping p e k w) = events w"
  by (simp_all add: projectMapping_def createSymlink_def Let_def split: option.split)

lemma writeToCache_fields:
  "configFile (fst (writeToCache E s i v c w)) = configFile w"
  "lockfileFile (fst (writeToCache E s i v c w)) = lockfileFile w"
  "links (fst (writeToCache E s i v c w)) = links w"
  "events (fst (writeToCache E s i v c w)) = events w"
  by (simp_all add: writeToCache_def Let_def)

lemma writeDirectoryToCache_fields:
  "configFile (fst (writeDirectoryToCache E s i v fs w)) = configFile w"
  "lockfileFile (fst (writeDirectoryToCache E s i v fs w)) = lockfileFile w"
  "links (fst (writeDirectoryToCache E s i v fs w)) = links w"
  "events (fst (writeDirectoryToCache E s i v fs w)) = events w"
  by (simp_all add: writeDirectoryToCache_def Let_def)

lemma fetchAndCache_file:
  assumes "k \<noteq> Skill"
  shows "fetchAndCache E git e k vm r w =
    (case hostFetchFile (host git) (v_path vm) r of
       Inl err \<Rightarrow> (logEvent (FetchFile (repoUrl git) (v_path vm) r) w, Inl err)
     | Inr content \<Rightarrow>
         (fst (writeToCache E (e_source e) (e_id e) (e_version e) content
                 (logEvent (FetchFile (repoUrl git) (v_path vm) r) w)),
          Inr (computeHashFromString E (normalizeLF content),
               getAssetPath E (e_source e) (e_id e) (e_version e) Prompt, content)))"
  using assms
  by (simp add: fetchAndCache_def fetchFile_def writeToCache_def Let_def split: sum.split)

lemma fetchAndCache_skill:
  "fetchAndCache E git e Skill vm r w =
    (case hostFetchDirectory (host git) (v_path vm) r of
       Inl err \<Rightarrow> (logEvent (FetchDirectory (repoUrl git) (v_path vm) r) w, Inl err)
     | Inr files \<Rightarrow>
         (case find (\<lambda>(p, c). toLowerCase p = ''skill.md'') files of
            None \<Rightarrow> (logEvent (FetchDirectory (repoUrl git) (v_path vm) r) w,
                      Inl (MissingSkillEntry (e_id e) (v_path vm)))
          | Some (p, content) \<Rightarrow>
              (fst (writeDirectoryToCache E (e_source e) (e_id e) (e_version e) files
                      (logEvent (FetchDirectory (repoUrl git) (v_path vm) r) w)),
               Inr (snd (snd (writeDirectoryToCache E (e_source e) (e_id e) (e_version e) files
                      (logEvent (FetchDirectory (repoUrl git) (v_path vm) r) w))),
                    getAssetDir E (e_source e) (e_id e) (e_version e), content))))"
  by (simp add: fetchAndCache_def fetchDirectory_def writeDirectoryToCache_def Let_def
      split: sum.split option.split prod.split)

lemma fetchAndCache_fields:
  "configFile (fst (fetchAndCache E git e k vm r w)) = configFile w"
  "lockfileFile (fst (fetchAndCache E git e k vm r w)) = lockfileFile w"
  "links (fst (fetchAndCache E git e k vm r w)) = links w"
proof -
  show "configFile (fst (fetchAndCache E git e k vm r w)) = configFile w"
    by (cases "k = Skill")
      (simp_all add: fetchAndCache_file fetchAndCache_skill writeToCache_fields
        writeDirectoryToCache_fields logEvent_fields split: sum.split option.split prod.split)
  show "lockfileFile (fst (fetchAndCache E git e k vm r w)) = lockfileFile w"
    by (cases "k = Skill")
      (simp_all add: fetchAndCache_file fetchAndCache_skill writeToCache_fields
        writeDirectoryToCache_fields logEvent_fields split: sum.split option.split prod.split)
  show "links (fst (fetchAndCache E git e k vm r w)) = links w"
    by (cases "k = Skill")
      (simp_all add: fetchAndCache_file fetchAndCache_skill writeToCache_fields
        writeDirectoryToCache_fields logEvent_fields split: sum.split option.split prod.split)
qed

lemma resolveAsset_unfold:
  assumes am: "map_of (m_assets manifest) (e_id entry) = Some assetMeta"
    and vm: "map_of (a_versions assetMeta) (e_version entry) = Some versionMeta"
    and rr: "hostResolveRef (host git) (effectiveRefOf versionMeta manifestRef) = Inr commit"
  shows "resolveAsset E entry manifest git manifestRef allowUpdate w =
    (let effectiveRef = effectiveRefOf versionMeta manifestRef;
         w1 = logEvent (ResolveRef (repoUrl git) effectiveRef) w;
         lockfile = lockfile_load w;
         locked = findAsset lockfile (e_id entry) (e_source entry);
         kind = a_kind assetMeta
     in if fastPath E w entry kind commit allowUpdate locked then
           (let cachedPath = getAssetPath E (e_source entry) (e_id entry) (e_version entry) kind
            in (projectMapping cachedPath entry kind w1,
                Inr \<lparr>r_id = e_id entry, r_version = e_version entry, r_source = e_source entry,
                     r_commit = commit,
                     r_sha256 = (case locked of None \<Rightarrow> [] | Some l \<Rightarrow> l_sha256 l),
                     r_content =
                       (case readFromCache w (e_source entry) (e_id entry) (e_version entry) kind
                        of None \<Rightarrow> [] | Some c \<Rightarrow> c),
                     r_cachePath = cachedPath, r_mapping = e_mapping entry\<rparr>))
         else
     (case fetchAndCache E git entry kind versionMeta effectiveRef w1 of
        (w2, Inl e) \<Rightarrow> (w2, Inl e)
      | (w2, Inr (sha256, cachedPath, content)) \<Rightarrow>
     (case integrityGate locked sha256 allowUpdate of
        Some expected \<Rightarrow>
          (w2, Inl (IntegrityMismatch (e_id entry) (e_version entry) expected sha256))
      | None \<Rightarrow>
     (let manifestHash = computeHashFromString E (stringifyManifest E manifest);
          lockedEntry = \<lparr>l_id = e_id entry, l_version = e_version entry,
                         l_source = e_source entry, l_commit = commit, l_sha256 = sha256,
                         l_manifestHash = manifestHash, l_resolvedAt = now E\<rparr>;
          w3 = lockfile_save (upsertAsset lockfile lockedEntry) w2
      in (projectMapping cachedPath entry kind w3,
          Inr \<lparr>r_id = e_id entry, r_version = e_version entry, r_source = e_source entry,
               r_commit = commit, r_sha256 = sha256, r_content = content,
               r_cachePath = cachedPath, r_mapping = e_mapping entry\<rparr>)))))"
  by (simp add: resolveAsset_def am vm resolveRef_def rr Let_def lockfile_load_logEvent
      fastPath_logEvent readFromCache_logEvent split: prod.split sum.split option.split)

lemma fetchAndCache_events:
  "\<exists>rest. events (fst (fetchAndCache E git e k vm r w)) = events w @ rest"
  by (cases "k = Skill")
    (simp_all add: fetchAndCache_file fetchAndCache_skill writeToCache_fields
      writeDirectoryToCache_fields logEvent_fields split: sum.split option.split prod.split)

lemma lockfile_save_fields:
  "configFile (lockfile_save l w) = configFile w"
  "lockfileFile (lockfile_save l w) = Some l"
  "cache (lockfile_save l w) = cache w"
  "links (lockfile_save l w) = links w"
  "events (lockfile_save l w) = events w"
  by (simp_all add: lockfile_save_def)

lemma resolveAsset_events_resolved:
  assumes am: "map_of (m_assets manifest) (e_id entry) = Some assetMeta"
    and vm: "map_of (a_versions assetMeta) (e_version entry) = Some versionMeta"
  shows "\<exists>rest. events (fst (resolveAsset E entry manifest git manifestRef allowUpdate w))
           = events w @ [ResolveRef (repoUrl git) (effectiveRefOf versionMeta manifestRef)] @ rest"
proof (cases "hostResolveRef (host git) (effectiveRefOf versionMeta manifestRef)")
  case (Inl e)
  then show ?thesis
    by (simp add: resolveAsset_def am vm resolveRef_def logEvent_fields)
next
  case (Inr commit)
  let ?ref = "effectiveRefOf versionMeta manifestRef"
  let ?w1 = "logEvent (ResolveRef (repoUrl git) ?ref) w"
  let ?fc = "fetchAndCache E git entry (a_kind assetMeta) versionMeta ?ref ?w1"
  obtain rest where rest: "events (fst ?fc) = events ?w1 @ rest"
    using fetchAndCache_events by blast
  obtain w2 r where fc: "?fc = (w2, r)" by (cases ?fc)
  with rest have w2: "events w2 = events w @ [ResolveRef (repoUrl git) ?ref] @ rest"
    by (simp add: logEvent_fields)
  show ?thesis
    unfolding resolveAsset_unfold[OF am vm Inr] Let_def fc
    by (auto simp: projectMapping_fields logEvent_fields lockfile_save_fields w2
        split: sum.split option.split prod.split)
qed

lemma resolveAsset_events:
  "\<exists>rest. events (fst (resolveAsset E entry manifest git manifestRef allowUpdate w))
           = events w @ rest"
proof (cases "map_of (m_assets manifest) (e_id entry)")
  case None
  then show ?thesis by (simp add: resolveAsset_def)
next
  case (Some assetMeta)
  show ?thesis
  proof (cases "map_of (a_versions assetMeta) (e_version entry)")
    case None
    then show ?thesis using Some by (simp add: resolveAsset_def)
  next
    case (Some versionMeta)
    from resolveAsset_events_resolved[OF \<open>map_of (m_assets manifest) (e_id entry) = Some assetMeta\<close> Some]
    show ?thesis by blast
  qed
qed

lemma foldl_log_extends:
  assumes "\<And>acc x. \<exists>rest. g (f acc x) = g acc @ rest"
  shows "\<exists>rest. g (foldl f acc xs) = g acc @ rest"
proof (induction xs arbitrary: acc)
  case Nil
  then show ?case by simp
next
  case (Cons x xs)
  from Cons.IH[of "f acc x"] obtain r1 where "g (foldl f (f acc x) xs) = g (f acc x) @ r1"
    by blast
  moreover from assms[of acc x] obtain r2 where "g (f acc x) = g acc @ r2" by blast
  ultimately show ?case by simp
qed

lemma foldl_log_mem:
  assumes mono: "\<And>acc x. \<exists>rest. g (f acc x) = g acc @ rest"
    and hit: "\<And>acc. e \<in> set (g (f acc x))"
    and mem: "x \<in> set xs"
  shows "e \<in> set (g (foldl f acc xs))"
  using mem
proof (induction xs arbitrary: acc)
  case Nil
  then show ?case by simp
next
  case (Cons y ys)
  show ?case
  proof (cases "x = y")
    case True
    from foldl_log_extends[of g f "f acc y" ys, OF mono]
    obtain rest where "g (foldl f (f acc y) ys) = g (f acc y) @ rest" by blast
    with hit[of acc] True show ?thesis by simp
  next
    case False
    with Cons.prems have "x \<in> set ys" by simp
    from Cons.IH[OF this, of "f acc y"] show ?thesis by simp
  qed
qed

lemma fetchManifest_fst:
  "fst (fetchManifest E git r w) = logEvent (FetchFile (repoUrl git) MANIFEST_FILENAME r) w"
  by (simp add: fetchManifest_def fetchFile_def split: sum.split)

lemma fetchManifest_snd:
  "snd (fetchManifest E git r w) = snd (fetchManifest E git r w')"
  by (simp add: fetchManifest_def fetchFile_def split: sum.split)

lemma resolveAll_asset_events:
  "\<exists>rest. events (fst (resolveAll_asset E git L acc a))
     = events (fst acc) @ [OnAssetStart (e_id a) (e_version a),
                           FetchFile (repoUrl git) MANIFEST_FILENAME (manifestRefFor L a)] @ rest"
proof -
  obtain w rs where acc: "acc = (w, rs)" by (cases acc)
  let ?w0 = "logEvent (OnAssetStart (e_id a) (e_version a)) w"
  let ?fm = "fetchManifest E git (manifestRefFor L a) ?w0"
  let ?w1 = "logEvent (FetchFile (repoUrl git) MANIFEST_FILENAME (manifestRefFor L a)) ?w0"
  obtain x where fm: "?fm = (?w1, x)"
    using fetchManifest_fst[of E git "manifestRefFor L a" ?w0] by (cases ?fm) simp
  show ?thesis
  proof (cases x)
    case (Inl e)
    then show ?thesis
      by (simp add: resolveAll_asset_def acc Let_def fm logEvent_fields)
  next
    case (Inr manifest)
    let ?ra = "resolveAsset E a manifest git (manifestRefFor L a) False ?w1"
    obtain rest where rest: "events (fst ?ra) = events ?w1 @ rest"
      using resolveAsset_events by blast
    obtain w2 y where ra: "?ra = (w2, y)" by (cases ?ra)
    with rest have "events w2 = events ?w1 @ rest" by simp
    then show ?thesis
      by (cases y) (simp_all add: resolveAll_asset_def acc Let_def fm Inr ra logEvent_fields)
  qed
qed

lemma effectiveRefOf_unpinned: "\<not> hasRef vm \<Longrightarrow> effectiveRefOf vm r = r"
  by (simp add: hasRef_def effectiveRefOf_def split: option.splits)

lemma resolveAll_asset_events_unpinned:
  assumes m: "snd (fetchManifest E git (manifestRefFor L a) w') = Inr manifest"
    and am: "map_of (m_assets manifest) (e_id a) = Some assetMeta"
    and vm: "map_of (a_versions assetMeta) (e_version a) = Some versionMeta"
    and un: "\<not> hasRef versionMeta"
  shows "\<exists>rest. events (fst (resolveAll_asset E git L acc a))
     = events (fst acc) @ [OnAssetStart (e_id a) (e_version a),
                           FetchFile (repoUrl git) MANIFEST_FILENAME (manifestRefFor L a),
                           ResolveRef (repoUrl git) (manifestRefFor L a)] @ rest"
proof -
  obtain w rs where acc: "acc = (w, rs)" by (cases acc)
  let ?w0 = "logEvent (OnAssetStart (e_id a) (e_version a)) w"
  let ?fm = "fetchManifest E git (manifestRefFor L a) ?w0"
  let ?w1 = "logEvent (FetchFile (repoUrl git) MANIFEST_FILENAME (manifestRefFor L a)) ?w0"
  have "snd ?fm = Inr manifest" using m fetchManifest_snd[of E git _ ?w0 w'] by simp
  then have fm: "?fm = (?w1, Inr manifest)"
    using fetchManifest_fst[of E git "manifestRefFor L a" ?w0] by (cases ?fm) simp
  let ?ra = "resolveAsset E a manifest git (manifestRefFor L a) False ?w1"
  from resolveAsset_events_resolved[OF am vm, of E git "manifestRefFor L a" False ?w1]
  obtain rest where rest: "events (fst ?ra)
      = events ?w1 @ [ResolveRef (repoUrl git) (manifestRefFor L a)] @ rest"
    using effectiveRefOf_unpinned[OF un] by auto
  obtain w2 y where ra: "?ra = (w2, y)" by (cases ?ra)
  with rest have "events w2 = events ?w1 @ [ResolveRef (repoUrl git) (manifestRefFor L a)] @ rest"
    by simp
  then show ?thesis
    by (cases y) (simp_all add: resolveAll_asset_def acc Let_def fm ra logEvent_fields)
qed

lemma find_unique_key:
  assumes "distinct (map k xs)" and "x \<in> set xs"
  shows "find (\<lambda>y. k y = k x) xs = Some x"
  using assms
proof (induction xs)
  case Nil
  then show ?case by simp
next
  case (Cons y ys)
  show ?case
  proof (cases "k y = k x")
    case True
    with Cons.prems have "y = x" by (auto simp: image_iff)
    then show ?thesis by simp
  next
    case False
    with Cons show ?thesis by auto
  qed
qed

lemma findAsset_unique:
  assumes "distinct (map (\<lambda>l. (l_id l, l_source l)) L)" and "l \<in> set L"
  shows "findAsset L (l_id l) (l_source l) = Some l"
proof -
  have "(\<lambda>a. l_id a = l_id l \<and> l_source a = l_source l)
      = (\<lambda>y. (l_id y, l_source y) = (l_id l, l_source l))" by auto
  then show ?thesis
    using find_unique_key[OF assms, of ] by (simp add: findAsset_def)
qed

lemma manifestRefFor_locked:
  assumes "distinct (map (\<lambda>l. (l_id l, l_source l)) L)" and "l \<in> set L"
    and "l_id l = e_id a" and "l_source l = e_source a" and "l_version l = e_version a"
  shows "manifestRefFor L a = l_commit l"
  using findAsset_unique[OF assms(1,2)] assms(3,4,5) by (simp add: manifestRefFor_def)

lemma manifestRefFor_main:
  assumes "\<forall>l\<in>set L. \<not> (l_id l = e_id a \<and> l_source l = e_source a \<and> l_version l = e_version a)"
  shows "manifestRefFor L a = ''main''"
proof (cases "findAsset L (e_id a) (e_source a)")
  case None
  then show ?thesis by (simp add: manifestRefFor_def)
next
  case (Some l)
  then have "l \<in> set L" "l_id l = e_id a" "l_source l = e_source a"
    by (auto simp: findAsset_def find_Some_iff)
  with assms have "l_version l \<noteq> e_version a" by blast
  with Some show ?thesis by (simp add: manifestRefFor_def)
qed

lemma update_has: "map_of m k = Some old \<Longrightarrow> (k, v) \<in> set (AList.update k v m)"
  by (induction m) (auto split: if_splits)

lemma update_keeps:
  "(s, bs) \<in> set m \<Longrightarrow> (s, bs) \<in> set (AList.update k v m) \<or> (s = k \<and> map_of m k = Some bs)"
  by (induction m) (auto split: if_splits)

lemma covered_push_self: "covered (bySource_push m a) a"
proof (cases "map_of m (e_source a)")
  case None
  then show ?thesis by (auto simp: covered_def bySource_push_def)
next
  case (Some as)
  from update_has[OF Some, of "as @ [a]"] show ?thesis
    by (auto simp: covered_def bySource_push_def Some)
qed

lemma covered_push_other: "covered m b \<Longrightarrow> covered (bySource_push m a) b"
proof (cases "map_of m (e_source a)")
  case None
  assume "covered m b"
  then show ?thesis using None by (auto simp: covered_def bySource_push_def)
next
  case (Some as)
  assume "covered m b"
  then obtain bs where bs: "(e_source b, bs) \<in> set m" "b \<in> set bs" by (auto simp: covered_def)
  from update_keeps[OF bs(1), of "e_source a" "as @ [a]"]
  show ?thesis
  proof
    assume "(e_source b, bs) \<in> set (AList.update (e_source a) (as @ [a]) m)"
    with bs(2) show ?thesis by (auto simp: covered_def bySource_push_def Some)
  next
    assume "e_source b = e_source a \<and> map_of m (e_source a) = Some bs"
    with Some have e: "e_source b = e_source a" "bs = as" by auto
    from update_has[OF Some, of "as @ [a]"] bs(2) e show ?thesis
      by (auto simp: covered_def bySource_push_def Some)
  qed
qed

lemma covered_foldl:
  "a \<in> set assets \<or> covered m a \<Longrightarrow> covered (foldl bySource_push m assets) a"
proof (induction assets arbitrary: m)
  case Nil
  then show ?case by simp
next
  case (Cons x xs)
  have "a \<in> set xs \<or> covered (bySource_push m x) a"
    using Cons.prems covered_push_self[of m x] covered_push_other[of m a x] by auto
  from Cons.IH[OF this] show ?case by simp
qed

lemma groupBySource_covers:
  "a \<in> set assets \<Longrightarrow> \<exists>as. (e_source a, as) \<in> set (groupBySource assets) \<and> a \<in> set as"
  using covered_foldl[of a assets "[]"] by (simp add: covered_def groupBySource_def)

lemma repoUrl_createGitProvider: "repoUrl (createGitProvider E p u) = u"
  by (simp add: createGitProvider_def)

lemma resolveAll_asset_extends:
  "\<exists>rest. events (fst (resolveAll_asset E git L acc a)) = events (fst acc) @ rest"
  using resolveAll_asset_events[of E git L acc a] by blast

lemma resolveAll_asset_mem:
  "FetchFile (repoUrl git) MANIFEST_FILENAME (manifestRefFor L a)
     \<in> set (events (fst (resolveAll_asset E git L acc a)))"
  using resolveAll_asset_events[of E git L acc a] by auto

lemma logErrors_extends:
  "\<exists>rest. events (foldl (\<lambda>w' a. logEvent (ev a) w') w assets) = events w @ rest"
  by (rule foldl_log_extends) (simp add: logEvent_fields)

lemma resolveAll_source_extends:
  "\<exists>rest. events (fst (resolveAll_source E config L acc grp)) = events (fst acc) @ rest"
proof -
  obtain s as where grp: "grp = (s, as)" by (cases grp)
  show ?thesis
  proof (cases "map_of (c_sources config) s")
    case None
    obtain w rs where acc: "acc = (w, rs)" by (cases acc)
    from logErrors_extends[of "\<lambda>a. OnAssetError (e_id a) (SourceNotDefined s)" w as]
    show ?thesis by (simp add: resolveAll_source_def grp None acc)
  next
    case (Some src)
    have "\<exists>rest. events (fst (foldl (resolveAll_asset E
              (createGitProvider E (s_provider src) (s_url src)) L) acc as))
            = events (fst acc) @ rest"
      by (rule foldl_log_extends[where g = "\<lambda>x. events (fst x)"])
        (rule resolveAll_asset_extends)
    then show ?thesis by (simp add: resolveAll_source_def grp Some)
  qed
qed

lemma resolveAll_source_mem:
  assumes "map_of (c_sources config) s = Some src" and "a \<in> set as"
  shows "FetchFile (s_url src) MANIFEST_FILENAME (manifestRefFor L a)
           \<in> set (events (fst (resolveAll_source E config L acc (s, as))))"
proof -
  let ?git = "createGitProvider E (s_provider src) (s_url src)"
  have "FetchFile (repoUrl ?git) MANIFEST_FILENAME (manifestRefFor L a)
      \<in> set (events (fst (foldl (resolveAll_asset E ?git L) acc as)))"
    by (rule foldl_log_mem[where g = "\<lambda>x. events (fst x)" and x = a])
      (rule resolveAll_asset_extends, rule resolveAll_asset_mem, rule assms(2))
  then show ?thesis
    by (simp add: resolveAll_source_def assms(1) repoUrl_createGitProvider)
qed

lemma config_load_source:
  assumes "config_load w = Inr config" and "a \<in> set (c_assets config)"
  shows "\<exists>src. map_of (c_sources config) (e_source a) = Some src"
proof -
  from assms(1) have "config_validate config"
    by (auto simp: config_load_def split: option.splits if_splits)
  with assms(2) show ?thesis
    by (auto simp: config_validate_def list_all_iff)
qed

lemma resolveAll_mem:
  assumes cl: "config_load w = Inr config" and a: "a \<in> set (c_assets config)"
    and src: "map_of (c_sources config) (e_source a) = Some src"
  shows "FetchFile (s_url src) MANIFEST_FILENAME (manifestRefFor (lockfile_load w) a)
           \<in> set (events (fst (resolveAll E w)))"
proof -
  let ?L = "lockfile_load w"
  from groupBySource_covers[OF a] obtain as where
    as: "(e_source a, as) \<in> set (groupBySource (c_assets config))" "a \<in> set as" by blast
  have "FetchFile (s_url src) MANIFEST_FILENAME (manifestRefFor ?L a)
      \<in> set (events (fst (foldl (resolveAll_source E config ?L) (w, [])
                              (groupBySource (c_assets config)))))"
    by (rule foldl_log_mem[where g = "\<lambda>x. events (fst x)" and x = "(e_source a, as)"])
      (rule resolveAll_source_extends, rule resolveAll_source_mem[OF src as(2)], rule as(1))
  then show ?thesis
    by (simp add: resolveAll_def cl case_prod_beta)
qed

section \<open>The integrity gate\<close>

text \<open>
  Claim C1.  When the lockfile records a hash for the pair \<open>(id, source)\<close> of the entry,
  \<^verbatim>\<open>resolveAsset\<close> runs with \<^verbatim>\<open>allowUpdate = false\<close>, does not return from the cache, and
  the fetch yields content whose hash differs from the recorded one, then the call fails
  with \<open>IntegrityMismatch\<close> (carrying the expected and the computed hash) and the lockfile
  on disk is what it was before the call.
\<close>

theorem resolveAsset_integrity_mismatch:
  assumes "map_of (m_assets manifest) (e_id entry) = Some assetMeta"
    and "map_of (a_versions assetMeta) (e_version entry) = Some versionMeta"
    and "snd (resolveRef git (effectiveRefOf versionMeta manifestRef) w) = Inr commit"
    and "findAsset (lockfile_load w) (e_id entry) (e_source entry) = Some locked"
    and "truthy (l_sha256 locked)"
    and "\<not> fastPath E w entry (a_kind assetMeta) commit False (Some locked)"
    and "snd (fetchAndCache E git entry (a_kind assetMeta) versionMeta
                (effectiveRefOf versionMeta manifestRef)
                (fst (resolveRef git (effectiveRefOf versionMeta manifestRef) w)))
           = Inr (sha256, cachedPath, content)"
    and "sha256 \<noteq> l_sha256 locked"
  shows "snd (resolveAsset E entry manifest git manifestRef False w)
           = Inl (IntegrityMismatch (e_id entry) (e_version entry) (l_sha256 locked) sha256)
         \<and> lockfileFile (fst (resolveAsset E entry manifest git manifestRef False w))
             = lockfileFile w"
proof -
  let ?ref = "effectiveRefOf versionMeta manifestRef"
  let ?w1 = "logEvent (ResolveRef (repoUrl git) ?ref) w"
  let ?fc = "fetchAndCache E git entry (a_kind assetMeta) versionMeta ?ref ?w1"
  from assms(3) have rr: "hostResolveRef (host git) ?ref = Inr commit"
    by (simp add: resolveRef_snd)
  from assms(7) have fc: "?fc = (fst ?fc, Inr (sha256, cachedPath, content))"
    by (simp add: resolveRef_fst prod_eq_iff)
  have gate: "integrityGate (Some locked) sha256 False = Some (l_sha256 locked)"
    using assms(5,8) by (simp add: integrityGate_def)
  have res: "resolveAsset E entry manifest git manifestRef False w
      = (fst ?fc, Inl (IntegrityMismatch (e_id entry) (e_version entry) (l_sha256 locked) sha256))"
    unfolding resolveAsset_unfold[OF assms(1,2) rr] Let_def assms(4)
    using assms(6) by (subst fc) (simp add: gate)
  have "lockfileFile (fst ?fc) = lockfileFile w"
    by (simp add: fetchAndCache_fields logEvent_fields)
  with res show ?thesis by simp
qed

theorem resolveAsset_integrity_mismatch_witness:
  "snd (resolveAsset envX entryX manifestX (createGitProvider envX Github urlX) ''main'' False
          (wLocked urlX))
     = Inl (IntegrityMismatch ''test-asset'' ''1.0.0'' ''sha256:# Hello'' ''sha256:# Changed'')
   \<and> lockfileFile (fst (resolveAsset envX entryX manifestX (createGitProvider envX Github urlX)
                          ''main'' False (wLocked urlX)))
       = Some [lockedX]"
proof -
  let ?git = "createGitProvider envX Github urlX"
  let ?am = "\<lparr>a_kind = Prompt, a_description = Some ''Test prompt'',
           a_versions = [(''1.0.0'', \<lparr>v_ref = None, v_path = ''prompts/test.md''\<rparr>)]\<rparr>"
  let ?vm = "\<lparr>v_ref = None, v_path = ''prompts/test.md''\<rparr>"
  have h1: "map_of (m_assets manifestX) (e_id entryX) = Some ?am" by code_simp
  have h2: "map_of (a_versions ?am) (e_version entryX) = Some ?vm" by code_simp
  have h3: "snd (resolveRef ?git (effectiveRefOf ?vm ''main'') (wLocked urlX)) = Inr ''c2''"
    by code_simp
  have h4: "findAsset (lockfile_load (wLocked urlX)) (e_id entryX) (e_source entryX) = Some lockedX"
    by code_simp
  have h5: "truthy (l_sha256 lockedX)" by code_simp
  have h6: "\<not> fastPath envX (wLocked urlX) entryX (a_kind ?am) ''c2'' False (Some lockedX)"
    by code_simp
  have h7: "snd (fetchAndCache envX ?git entryX (a_kind ?am) ?vm (effectiveRefOf ?vm ''main'')
                (fst (resolveRef ?git (effectiveRefOf ?vm ''main'') (wLocked urlX))))
           = Inr (''sha256:# Changed'', ''/cache/test/test-asset/1.0.0/test-asset.md'', ''# Changed'')"
    by code_simp
  have h8: "''sha256:# Changed'' \<noteq> l_sha256 lockedX" by code_simp
  have e: "e_id entryX = ''test-asset''" "e_version entryX = ''1.0.0''"
    "l_sha256 lockedX = ''sha256:# Hello''" "lockfileFile (wLocked urlX) = Some [lockedX]"
    by (simp_all add: entryX_def lockedX_def wLocked_def)
  from resolveAsset_integrity_mismatch[OF h1 h2 h3 h4 h5 h6 h7 h8]
  show ?thesis unfolding e .
qed

section \<open>The fast path\<close>



subsection \<open>A second run\<close>

text \<open>
  After a call of \<^verbatim>\<open>resolveAsset\<close> that succeeded, the lockfile and the cache are such that
  a second call without update, against the same answers of the Git host, returns from the
  cache: it resolves the ref, fetches nothing, leaves lockfile and cache as they are, and
  returns the hash and the commit of the first call.  A lockfile with one entry per pair
  keeps that shape under \<^verbatim>\<open>upsertAsset\<close>.
\<close>

lemma written_keys:
  "fst ` set (foldl (\<lambda>d (p, c). AList.update p (normalizeLF c) d) d0 files)
     = fst ` set d0 \<union> fst ` set files"
proof (induction files arbitrary: d0)
  case Nil
  then show ?case by simp
next
  case (Cons f files)
  obtain p c where f: "f = (p, c)" by (cases f)
  show ?case by (auto simp: f Cons.IH dom_update)
qed

lemma lowerChar_slash: "lowerChar CHR ''/'' = CHR ''/''"
  by (simp add: lowerChar_def)

lemma skill_md_no_slash:
  assumes "toLowerCase p = ''skill.md''"
  shows "CHR ''/'' \<notin> set p"
proof
  assume "CHR ''/'' \<in> set p"
  then have "lowerChar CHR ''/'' \<in> set (toLowerCase p)" by (simp add: toLowerCase_def)
  then show False using assms lowerChar_slash by simp
qed

lemma readdir_mem:
  assumes "p \<in> fst ` set files" and "CHR ''/'' \<notin> set p"
  shows "p \<in> set (readdir files)"
proof -
  have "takeWhile (\<lambda>x. x \<noteq> CHR ''/'') p = p"
    using assms(2) by auto
  moreover from assms(1) obtain c where "(p, c) \<in> set files" by auto
  ultimately have "p \<in> (\<lambda>(p, c). takeWhile (\<lambda>x. x \<noteq> CHR ''/'') p) ` set files"
    by (metis (mono_tags, lifting) case_prod_conv image_eqI)
  then show ?thesis by (simp add: readdir_def)
qed

lemma find_append_None: "find P xs = None \<Longrightarrow> find P (xs @ ys) = find P ys"
  by (induction xs) (auto split: if_splits)

lemma upsertAsset_find:
  "findAsset (upsertAsset L e) (l_id e) (l_source e) = Some e"
proof -
  have "find (\<lambda>a. l_id a = l_id e \<and> l_source a = l_source e)
          (filter (\<lambda>a. \<not> (l_id a = l_id e \<and> l_source a = l_source e)) L) = None"
    by (simp add: find_None_iff)
  from find_append_None[OF this, of "[e]"] show ?thesis
    by (simp add: findAsset_def upsertAsset_def)
qed

lemma upsertAsset_keyed:
  assumes "distinct (map (\<lambda>l. (l_id l, l_source l)) L)"
  shows "distinct (map (\<lambda>l. (l_id l, l_source l)) (upsertAsset L e))"
  using assms by (auto simp: upsertAsset_def distinct_map_filter)

lemma isCached_after_writeToCache:
  "k \<noteq> Skill \<Longrightarrow>
   isCached E (fst (writeToCache E s i v content w)) s i v k
     (snd (snd (writeToCache E s i v content w)))"
  by (simp add: isCached_def writeToCache_def Let_def update_conv')

lemma isCached_after_writeDirectoryToCache:
  assumes "find (\<lambda>(p, c). toLowerCase p = ''skill.md'') files = Some (p, content)"
  shows "isCached E (fst (writeDirectoryToCache E s i v files w)) s i v Skill
     (snd (snd (writeDirectoryToCache E s i v files w)))"
proof -
  let ?written = "foldl (\<lambda>d (p, c). AList.update p (normalizeLF c) d) [] files"
  from assms have "(p, content) \<in> set files" "toLowerCase p = ''skill.md''"
    by (auto simp: find_Some_iff in_set_conv_nth)
  then have "p \<in> fst ` set ?written" by (force simp: written_keys)
  from readdir_mem[OF this skill_md_no_slash[OF \<open>toLowerCase p = ''skill.md''\<close>]]
  have "p \<in> set (readdir ?written)" .
  with \<open>toLowerCase p = ''skill.md''\<close>
  have "list_ex (\<lambda>f. toLowerCase f = ''skill.md'') (readdir ?written)"
    by (auto simp: list_ex_iff)
  then show ?thesis
    by (simp add: isCached_def writeDirectoryToCache_def Let_def)
qed

lemma isCached_cache:
  "cache w' = cache w \<Longrightarrow> isCached E w' s i v k x = isCached E w s i v k x"
  by (simp add: isCached_def)

lemma fetchAndCache_isCached:
  assumes "fetchAndCache E git e k vm r w = (w2, Inr (sha, path, content))"
  shows "isCached E w2 (e_source e) (e_id e) (e_version e) k sha"
proof (cases "k = Skill")
  case False
  let ?w0 = "logEvent (FetchFile (repoUrl git) (v_path vm) r) w"
  from assms False obtain c where
    "w2 = fst (writeToCache E (e_source e) (e_id e) (e_version e) c ?w0)"
    "sha = snd (snd (writeToCache E (e_source e) (e_id e) (e_version e) c ?w0))"
    by (auto simp: fetchAndCache_file writeToCache_def Let_def split: sum.splits)
  then show ?thesis using isCached_after_writeToCache[OF False] by simp
next
  case True
  let ?w0 = "logEvent (FetchDirectory (repoUrl git) (v_path vm) r) w"
  from assms True obtain files p c where
    f: "find (\<lambda>(p, c). toLowerCase p = ''skill.md'') files = Some (p, c)"
    and "w2 = fst (writeDirectoryToCache E (e_source e) (e_id e) (e_version e) files ?w0)"
    and "sha = snd (snd (writeDirectoryToCache E (e_source e) (e_id e) (e_version e) files ?w0))"
    by (auto simp: fetchAndCache_skill split: sum.splits option.splits)
  then show ?thesis using isCached_after_writeDirectoryToCache[OF f] True by simp
qed

lemma resolveAsset_second_run:
  assumes first: "resolveAsset E entry manifest git manifestRef allowUpdate w = (w', Inr resolved)"
  shows "\<exists>resolved' ref.
      snd (resolveAsset E entry manifest git manifestRef False w') = Inr resolved'
    \<and> r_sha256 resolved' = r_sha256 resolved
    \<and> r_commit resolved' = r_commit resolved
    \<and> events (fst (resolveAsset E entry manifest git manifestRef False w'))
        = events w' @ [ResolveRef (repoUrl git) ref]
    \<and> lockfileFile (fst (resolveAsset E entry manifest git manifestRef False w'))
        = lockfileFile w'
    \<and> cache (fst (resolveAsset E entry manifest git manifestRef False w')) = cache w'"
proof -
  from first obtain assetMeta where am: "map_of (m_assets manifest) (e_id entry) = Some assetMeta"
    by (cases "map_of (m_assets manifest) (e_id entry)") (auto simp: resolveAsset_def)
  from first am obtain versionMeta where
    vm: "map_of (a_versions assetMeta) (e_version entry) = Some versionMeta"
    by (cases "map_of (a_versions assetMeta) (e_version entry)") (auto simp: resolveAsset_def)
  let ?ref = "effectiveRefOf versionMeta manifestRef"
  from first am vm obtain commit where rr: "hostResolveRef (host git) ?ref = Inr commit"
    by (cases "hostResolveRef (host git) ?ref") (auto simp: resolveAsset_def resolveRef_def)
  let ?kind = "a_kind assetMeta"
  let ?w1 = "logEvent (ResolveRef (repoUrl git) ?ref) w"
  let ?L = "lockfile_load w"
  let ?locked = "findAsset ?L (e_id entry) (e_source entry)"
  note unf = resolveAsset_unfold[OF am vm rr, of E]
  have state: "\<exists>l. findAsset (lockfile_load w') (e_id entry) (e_source entry) = Some l
      \<and> fastPath E w' entry ?kind commit False (Some l)
      \<and> l_sha256 l = r_sha256 resolved \<and> r_commit resolved = commit"
  proof (cases "fastPath E w entry ?kind commit allowUpdate ?locked")
    case True
    then obtain l where l: "?locked = Some l" "\<not> allowUpdate"
      by (cases ?locked) (auto simp: fastPath_def)
    from first True have w': "w' = projectMapping
        (getAssetPath E (e_source entry) (e_id entry) (e_version entry) ?kind) entry ?kind ?w1"
      and res: "r_sha256 resolved = l_sha256 l" "r_commit resolved = commit"
      unfolding unf Let_def using l by auto
    have c: "cache w' = cache w" "lockfileFile w' = lockfileFile w"
      by (simp_all add: w' projectMapping_fields logEvent_fields)
    have "fastPath E w' entry ?kind commit False (Some l)"
      using True l isCached_cache[OF c(1), of E] by (simp add: fastPath_def)
    moreover have "findAsset (lockfile_load w') (e_id entry) (e_source entry) = Some l"
      using l c(2) by (simp add: lockfile_load_def)
    ultimately show ?thesis using res by simp
  next
    case False
    let ?fc = "fetchAndCache E git entry ?kind versionMeta ?ref ?w1"
    obtain w2 y where fc: "?fc = (w2, y)" by (cases ?fc)
    from first False fc obtain sha path content where y: "y = Inr (sha, path, content)"
      unfolding unf Let_def by (cases y) auto
    let ?e = "\<lparr>l_id = e_id entry, l_version = e_version entry, l_source = e_source entry,
               l_commit = commit, l_sha256 = sha,
               l_manifestHash = computeHashFromString E (stringifyManifest E manifest),
               l_resolvedAt = now E\<rparr>"
    from first False fc y have
      w': "w' = projectMapping path entry ?kind (lockfile_save (upsertAsset ?L ?e) w2)"
      and res: "r_sha256 resolved = sha" "r_commit resolved = commit"
      unfolding unf Let_def by (auto split: option.splits)
    have c: "cache w' = cache w2" "lockfileFile w' = Some (upsertAsset ?L ?e)"
      by (simp_all add: w' projectMapping_fields lockfile_save_fields)
    have "isCached E w2 (e_source entry) (e_id entry) (e_version entry) ?kind sha"
      using fetchAndCache_isCached[of E git entry ?kind versionMeta ?ref ?w1 w2 sha path content]
        fc y by simp
    then have "isCached E w' (e_source entry) (e_id entry) (e_version entry) ?kind sha"
      using isCached_cache[OF c(1), of E] by simp
    then have "fastPath E w' entry ?kind commit False (Some ?e)"
      by (simp add: fastPath_def)
    moreover have "findAsset (lockfile_load w') (e_id entry) (e_source entry) = Some ?e"
      using upsertAsset_find[of ?L ?e] c(2) by (simp add: lockfile_load_def)
    ultimately show ?thesis using res by auto
  qed
  then obtain l where l: "findAsset (lockfile_load w') (e_id entry) (e_source entry) = Some l"
    "fastPath E w' entry ?kind commit False (Some l)"
    "l_sha256 l = r_sha256 resolved" "r_commit resolved = commit" by blast
  show ?thesis
    unfolding resolveAsset_unfold[OF am vm rr] Let_def l(1)
    using l(2,3,4) by (auto simp: projectMapping_fields logEvent_fields)
qed

section \<open>The manifest revision of resolveAll\<close>

text \<open>
  Claim C2.  Let the lockfile read at the start of \<^verbatim>\<open>resolveAll\<close> hold at most one entry
  per pair \<open>(id, source)\<close>.  For every declared entry, its source is registered, and: if the
  lockfile has an entry for the pair with the declared version, then the manifest for this
  entry is fetched at the commit of that lockfile entry (the fetch is in the log of the
  run, and it is the call that the loop body makes for this entry right after announcing
  it), and when the manifest found there declares the version without a ref, the next call
  resolves the locked commit as the effective ref; if the lockfile has no such entry, the
  manifest is fetched at \<^verbatim>\<open>main\<close>.
\<close>

theorem resolveAll_manifest_at_locked_commit:
  assumes keyed: "distinct (map (\<lambda>l. (l_id l, l_source l)) (lockfile_load w))"
    and cl: "config_load w = Inr config"
    and a: "a \<in> set (c_assets config)"
  shows "\<exists>src. map_of (c_sources config) (e_source a) = Some src
     \<and> (\<forall>l\<in>set (lockfile_load w).
           l_id l = e_id a \<and> l_source l = e_source a \<and> l_version l = e_version a \<longrightarrow>
             FetchFile (s_url src) MANIFEST_FILENAME (l_commit l)
               \<in> set (events (fst (resolveAll E w)))
           \<and> (\<forall>acc. \<exists>rest.
                events (fst (resolveAll_asset E (createGitProvider E (s_provider src) (s_url src))
                               (lockfile_load w) acc a))
                  = events (fst acc) @ [OnAssetStart (e_id a) (e_version a),
                                        FetchFile (s_url src) MANIFEST_FILENAME (l_commit l)] @ rest)
           \<and> (\<forall>acc manifest assetMeta versionMeta.
                 snd (fetchManifest E (createGitProvider E (s_provider src) (s_url src))
                        (l_commit l) w) = Inr manifest
                 \<and> map_of (m_assets manifest) (e_id a) = Some assetMeta
                 \<and> map_of (a_versions assetMeta) (e_version a) = Some versionMeta
                 \<and> \<not> hasRef versionMeta \<longrightarrow>
                 (\<exists>rest.
                   events (fst (resolveAll_asset E
                                  (createGitProvider E (s_provider src) (s_url src))
                                  (lockfile_load w) acc a))
                     = events (fst acc) @ [OnAssetStart (e_id a) (e_version a),
                                           FetchFile (s_url src) MANIFEST_FILENAME (l_commit l),
                                           ResolveRef (s_url src) (l_commit l)] @ rest)))
     \<and> ((\<forall>l\<in>set (lockfile_load w).
            \<not> (l_id l = e_id a \<and> l_source l = e_source a \<and> l_version l = e_version a)) \<longrightarrow>
           FetchFile (s_url src) MANIFEST_FILENAME ''main''
             \<in> set (events (fst (resolveAll E w)))
           \<and> (\<forall>acc. \<exists>rest.
                events (fst (resolveAll_asset E (createGitProvider E (s_provider src) (s_url src))
                               (lockfile_load w) acc a))
                  = events (fst acc) @ [OnAssetStart (e_id a) (e_version a),
                                        FetchFile (s_url src) MANIFEST_FILENAME ''main''] @ rest))"
proof -
  from config_load_source[OF cl a] obtain src where
    src: "map_of (c_sources config) (e_source a) = Some src" by blast
  let ?L = "lockfile_load w"
  let ?git = "createGitProvider E (s_provider src) (s_url src)"
  note mem = resolveAll_mem[OF cl a src, of E]
  note step = resolveAll_asset_events[of E ?git ?L _ a, unfolded repoUrl_createGitProvider]
  have locked: "FetchFile (s_url src) MANIFEST_FILENAME (l_commit l)
               \<in> set (events (fst (resolveAll E w)))
           \<and> (\<forall>acc. \<exists>rest.
                events (fst (resolveAll_asset E ?git ?L acc a))
                  = events (fst acc) @ [OnAssetStart (e_id a) (e_version a),
                                        FetchFile (s_url src) MANIFEST_FILENAME (l_commit l)] @ rest)
           \<and> (\<forall>acc manifest assetMeta versionMeta.
                 snd (fetchManifest E ?git (l_commit l) w) = Inr manifest
                 \<and> map_of (m_assets manifest) (e_id a) = Some assetMeta
                 \<and> map_of (a_versions assetMeta) (e_version a) = Some versionMeta
                 \<and> \<not> hasRef versionMeta \<longrightarrow>
                 (\<exists>rest.
                   events (fst (resolveAll_asset E ?git ?L acc a))
                     = events (fst acc) @ [OnAssetStart (e_id a) (e_version a),
                                           FetchFile (s_url src) MANIFEST_FILENAME (l_commit l),
                                           ResolveRef (s_url src) (l_commit l)] @ rest))"
    if l: "l \<in> set ?L" "l_id l = e_id a" "l_source l = e_source a" "l_version l = e_version a"
    for l
  proof -
    have r: "manifestRefFor ?L a = l_commit l"
      using manifestRefFor_locked[OF keyed l] .
    have 3: "\<exists>rest. events (fst (resolveAll_asset E ?git ?L acc a))
                     = events (fst acc) @ [OnAssetStart (e_id a) (e_version a),
                                           FetchFile (s_url src) MANIFEST_FILENAME (l_commit l),
                                           ResolveRef (s_url src) (l_commit l)] @ rest"
      if "snd (fetchManifest E ?git (l_commit l) w) = Inr manifest"
        "map_of (m_assets manifest) (e_id a) = Some assetMeta"
        "map_of (a_versions assetMeta) (e_version a) = Some versionMeta"
        "\<not> hasRef versionMeta"
      for acc manifest assetMeta versionMeta
      using resolveAll_asset_events_unpinned[of E ?git ?L a w manifest assetMeta versionMeta acc]
        that unfolding r repoUrl_createGitProvider by simp
    show ?thesis using mem step 3 unfolding r by blast
  qed
  have unlocked: "FetchFile (s_url src) MANIFEST_FILENAME ''main''
             \<in> set (events (fst (resolveAll E w)))
           \<and> (\<forall>acc. \<exists>rest.
                events (fst (resolveAll_asset E ?git ?L acc a))
                  = events (fst acc) @ [OnAssetStart (e_id a) (e_version a),
                                        FetchFile (s_url src) MANIFEST_FILENAME ''main''] @ rest)"
    if "\<forall>l\<in>set ?L. \<not> (l_id l = e_id a \<and> l_source l = e_source a \<and> l_version l = e_version a)"
  proof -
    have r: "manifestRefFor ?L a = ''main''" using manifestRefFor_main[OF that] .
    show ?thesis using mem step unfolding r by blast
  qed
  from src locked unlocked show ?thesis by blast
qed

theorem resolveAll_manifest_at_locked_commit_witness:
  "FetchFile urlX MANIFEST_FILENAME ''c1'' \<in> set (events (fst (resolveAll envX (wLocked urlX))))
   \<and> (\<exists>rest. events (fst (resolveAll_asset envX (createGitProvider envX Github urlX)
                             (lockfile_load (wLocked urlX)) (wLocked urlX, []) entryX))
        = [OnAssetStart ''test-asset'' ''1.0.0'', FetchFile urlX MANIFEST_FILENAME ''c1'',
           ResolveRef urlX ''c1''] @ rest)
   \<and> FetchFile urlX MANIFEST_FILENAME ''main'' \<in> set (events (fst (resolveAll envX wTwo)))"
proof -
  let ?cfg = "\<lparr>c_schema = ''1.0'',
               c_sources = [(''test'', \<lparr>s_provider = Github, s_url = urlX\<rparr>)],
               c_assets = [entryX]\<rparr>"
  let ?src = "\<lparr>s_provider = Github, s_url = urlX\<rparr>"
  let ?am = "\<lparr>a_kind = Prompt, a_description = Some ''Test prompt'',
           a_versions = [(''1.0.0'', \<lparr>v_ref = None, v_path = ''prompts/test.md''\<rparr>)]\<rparr>"
  let ?vm = "\<lparr>v_ref = None, v_path = ''prompts/test.md''\<rparr>"
  have keyed: "distinct (map (\<lambda>l. (l_id l, l_source l)) (lockfile_load (wLocked urlX)))"
    by code_simp
  have cl: "config_load (wLocked urlX) = Inr ?cfg" by code_simp
  have a: "entryX \<in> set (c_assets ?cfg)" by simp
  have s: "map_of (c_sources ?cfg) (e_source entryX) = Some ?src" by code_simp
  have l: "lockedX \<in> set (lockfile_load (wLocked urlX))"
    "l_id lockedX = e_id entryX \<and> l_source lockedX = e_source entryX
       \<and> l_version lockedX = e_version entryX"
    by code_simp+
  have m: "snd (fetchManifest envX (createGitProvider envX Github urlX) (l_commit lockedX)
                  (wLocked urlX)) = Inr manifestX
           \<and> map_of (m_assets manifestX) (e_id entryX) = Some ?am
           \<and> map_of (a_versions ?am) (e_version entryX) = Some ?vm
           \<and> \<not> hasRef ?vm"
    by code_simp
  have e: "s_url ?src = urlX" "s_provider ?src = Github" "l_commit lockedX = ''c1''"
    "e_id entryX = ''test-asset''" "e_version entryX = ''1.0.0''" "events (wLocked urlX) = []"
    by (simp_all add: lockedX_def entryX_def wLocked_def)
  from resolveAll_manifest_at_locked_commit[OF keyed cl a, of envX] s
  have 1: "\<forall>l\<in>set (lockfile_load (wLocked urlX)).
           l_id l = e_id entryX \<and> l_source l = e_source entryX \<and> l_version l = e_version entryX \<longrightarrow>
             FetchFile (s_url ?src) MANIFEST_FILENAME (l_commit l)
               \<in> set (events (fst (resolveAll envX (wLocked urlX))))
           \<and> (\<forall>acc manifest assetMeta versionMeta.
                 snd (fetchManifest envX (createGitProvider envX (s_provider ?src) (s_url ?src))
                        (l_commit l) (wLocked urlX)) = Inr manifest
                 \<and> map_of (m_assets manifest) (e_id entryX) = Some assetMeta
                 \<and> map_of (a_versions assetMeta) (e_version entryX) = Some versionMeta
                 \<and> \<not> hasRef versionMeta \<longrightarrow>
                 (\<exists>rest.
                   events (fst (resolveAll_asset envX
                                  (createGitProvider envX (s_provider ?src) (s_url ?src))
                                  (lockfile_load (wLocked urlX)) acc entryX))
                     = events (fst acc) @ [OnAssetStart (e_id entryX) (e_version entryX),
                                           FetchFile (s_url ?src) MANIFEST_FILENAME (l_commit l),
                                           ResolveRef (s_url ?src) (l_commit l)] @ rest))"
    by auto
  from 1 l(1) l(2) have i0:
    "FetchFile (s_url ?src) MANIFEST_FILENAME (l_commit lockedX)
               \<in> set (events (fst (resolveAll envX (wLocked urlX))))
           \<and> (\<forall>acc manifest assetMeta versionMeta.
                 snd (fetchManifest envX (createGitProvider envX (s_provider ?src) (s_url ?src))
                        (l_commit lockedX) (wLocked urlX)) = Inr manifest
                 \<and> map_of (m_assets manifest) (e_id entryX) = Some assetMeta
                 \<and> map_of (a_versions assetMeta) (e_version entryX) = Some versionMeta
                 \<and> \<not> hasRef versionMeta \<longrightarrow>
                 (\<exists>rest.
                   events (fst (resolveAll_asset envX
                                  (createGitProvider envX (s_provider ?src) (s_url ?src))
                                  (lockfile_load (wLocked urlX)) acc entryX))
                     = events (fst acc) @ [OnAssetStart (e_id entryX) (e_version entryX),
                                           FetchFile (s_url ?src) MANIFEST_FILENAME (l_commit lockedX),
                                           ResolveRef (s_url ?src) (l_commit lockedX)] @ rest))"
    by blast
  note i = i0[unfolded ParcaSource.select_convs]
  from i have 2: "FetchFile urlX MANIFEST_FILENAME ''c1''
               \<in> set (events (fst (resolveAll envX (wLocked urlX))))"
    by (simp add: e)
  from i have j: "\<forall>acc manifest assetMeta versionMeta.
         snd (fetchManifest envX (createGitProvider envX Github urlX)
               (l_commit lockedX) (wLocked urlX)) = Inr manifest \<and>
         map_of (m_assets manifest) (e_id entryX) = Some assetMeta \<and>
         map_of (a_versions assetMeta) (e_version entryX) = Some versionMeta \<and>
         \<not> hasRef versionMeta \<longrightarrow>
         (\<exists>rest.
             events (fst (resolveAll_asset envX (createGitProvider envX Github urlX)
                     (lockfile_load (wLocked urlX)) acc entryX)) =
             events (fst acc) @
             [OnAssetStart (e_id entryX) (e_version entryX),
              FetchFile urlX MANIFEST_FILENAME (l_commit lockedX),
              ResolveRef urlX (l_commit lockedX)] @ rest)"
    by (rule conjunct2)
  have "\<exists>rest.
                   events (fst (resolveAll_asset envX
                                  (createGitProvider envX Github urlX)
                                  (lockfile_load (wLocked urlX)) (wLocked urlX, []) entryX))
                     = events (fst (wLocked urlX, [] :: ResolvedAsset list)) @ [OnAssetStart (e_id entryX) (e_version entryX),
                                           FetchFile urlX MANIFEST_FILENAME (l_commit lockedX),
                                           ResolveRef urlX (l_commit lockedX)] @ rest"
    by (rule j[rule_format, OF m])
  then have 3: "\<exists>rest. events (fst (resolveAll_asset envX (createGitProvider envX Github urlX)
                             (lockfile_load (wLocked urlX)) (wLocked urlX, []) entryX))
        = [OnAssetStart ''test-asset'' ''1.0.0'',
           FetchFile urlX MANIFEST_FILENAME ''c1'', ResolveRef urlX ''c1''] @ rest"
    by (simp add: e)
  let ?cfg2 = "\<lparr>c_schema = ''1.0'',
               c_sources = [(''test'', \<lparr>s_provider = Github, s_url = urlX\<rparr>)],
               c_assets = [entryX, entryY]\<rparr>"
  have keyed2: "distinct (map (\<lambda>l. (l_id l, l_source l)) (lockfile_load wTwo))" by code_simp
  have cl2: "config_load wTwo = Inr ?cfg2" by code_simp
  have a2: "entryY \<in> set (c_assets ?cfg2)" by simp
  have s2: "map_of (c_sources ?cfg2) (e_source entryY) = Some ?src" by code_simp
  have n2: "\<forall>l\<in>set (lockfile_load wTwo).
      \<not> (l_id l = e_id entryY \<and> l_source l = e_source entryY \<and> l_version l = e_version entryY)"
    by code_simp
  from resolveAll_manifest_at_locked_commit[OF keyed2 cl2 a2, of envX] s2 n2
  have 4: "FetchFile urlX MANIFEST_FILENAME ''main'' \<in> set (events (fst (resolveAll envX wTwo)))"
    by auto
  from 2 3 4 show ?thesis by blast
qed

section \<open>The cache on a failed integrity check\<close>

text \<open>
  Claim C9 fails on the code: the slow path writes the fetched content into the cache
  before it compares the hash with the lockfile.  In the world below the cached bytes of
  \<^verbatim>\<open>test-asset\<close> match the lockfile; the manifest pins the version to the branch
  \<^verbatim>\<open>stable\<close>, which has moved.  \<^verbatim>\<open>resolveAll\<close> reports \<open>IntegrityMismatch\<close> for the asset
  and leaves the lockfile alone, and the cache entry now holds the new content.
\<close>

theorem resolveAll_mismatch_overwrites_cache:
  "isCached envX (wLocked urlP) ''test'' ''test-asset'' ''1.0.0'' Prompt (l_sha256 lockedX)
   \<and> cache (wLocked urlP) (''test'', ''test-asset'', ''1.0.0'') = Some [(''test-asset.md'', ''# Hello'')]
   \<and> snd (resolveAll envX (wLocked urlP)) = Inr []
   \<and> OnAssetError ''test-asset''
        (IntegrityMismatch ''test-asset'' ''1.0.0'' ''sha256:# Hello'' ''sha256:# Changed'')
        \<in> set (events (fst (resolveAll envX (wLocked urlP))))
   \<and> lockfileFile (fst (resolveAll envX (wLocked urlP))) = Some [lockedX]
   \<and> cache (fst (resolveAll envX (wLocked urlP))) (''test'', ''test-asset'', ''1.0.0'')
        = Some [(''test-asset.md'', ''# Changed'')]"
  by code_simp


section \<open>Manifest fetches per run\<close>

text \<open>
  Claim C8 fails on the code: the manifest is fetched inside the loop over the entries of
  a source.  Two unlocked entries of one source both need the manifest at \<^verbatim>\<open>main\<close>, and
  one run of \<^verbatim>\<open>resolveAll\<close> fetches it twice.
\<close>

theorem resolveAll_fetches_manifest_per_asset:
  "manifestRefFor (lockfile_load wTwo) entryX = ''main''
   \<and> manifestRefFor (lockfile_load wTwo) entryY = ''main''
   \<and> e_source entryX = e_source entryY
   \<and> length (filter (\<lambda>ev. ev = FetchFile urlX MANIFEST_FILENAME ''main'')
               (events (fst (resolveAll envX wTwo)))) = 2"
  by code_simp

section \<open>install\<close>

lemma config_load_logEvent: "config_load (logEvent ev w) = config_load w"
  by (simp add: config_load_def logEvent_fields)

lemma resolveAsset_configFile:
  "configFile (fst (resolveAsset E entry manifest git manifestRef allowUpdate w)) = configFile w"
proof (cases "map_of (m_assets manifest) (e_id entry)")
  case None
  then show ?thesis by (simp add: resolveAsset_def)
next
  case am: (Some assetMeta)
  show ?thesis
  proof (cases "map_of (a_versions assetMeta) (e_version entry)")
    case None
    then show ?thesis using am by (simp add: resolveAsset_def)
  next
    case vm: (Some versionMeta)
    show ?thesis
    proof (cases "hostResolveRef (host git) (effectiveRefOf versionMeta manifestRef)")
      case (Inl e)
      then show ?thesis
        by (simp add: resolveAsset_def am vm resolveRef_def logEvent_fields)
    next
      case (Inr commit)
      let ?ref = "effectiveRefOf versionMeta manifestRef"
      let ?w1 = "logEvent (ResolveRef (repoUrl git) ?ref) w"
      let ?fc = "fetchAndCache E git entry (a_kind assetMeta) versionMeta ?ref ?w1"
      have c: "configFile (fst ?fc) = configFile w"
        by (simp add: fetchAndCache_fields logEvent_fields)
      obtain w2 r where fc: "?fc = (w2, r)" by (cases ?fc)
      with c have w2: "configFile w2 = configFile w" by simp
      show ?thesis
        unfolding resolveAsset_unfold[OF am vm Inr] Let_def fc
        by (auto simp: projectMapping_fields logEvent_fields lockfile_save_fields w2
            split: sum.split option.split prod.split)
    qed
  qed
qed

lemma install_pre:
  assumes "snd (resolveRef (createGitProvider E (inferProvider url) url) ''main'' w)
             = Inr registryCommit"
    and "snd (fetchManifest E (createGitProvider E (inferProvider url) url) registryCommit w)
             = Inr manifest"
    and "map_of (m_assets manifest) assetId = Some assetMeta"
    and "install_selectVersion (ranges E) assetId (map fst (a_versions assetMeta)) versionRange
             = Inr version"
    and "config_load w = Inr config"
  shows "install E url assetId versionRange forceReinstall w =
    (let p = inferProvider url;
         git = createGitProvider E p url;
         w2 = logEvent (FetchFile url MANIFEST_FILENAME registryCommit)
                (logEvent (ResolveRef url ''main'') w)
     in case (if forceReinstall then None else find (\<lambda>a. e_id a = assetId) (c_assets config)) of
        Some existing \<Rightarrow> (w2, Inr (AlreadyInstalled existing version))
      | None \<Rightarrow>
     (case ensureSource E url p w2 of
        (w3, updatedConfig, alias) \<Rightarrow>
     (let entry = \<lparr>e_id = assetId, e_source = alias, e_version = version,
                   e_mapping = Some (getDefaultMapping (a_kind assetMeta) assetId)\<rparr>
      in case resolveAsset E entry manifest git registryCommit True w3 of
        (w4, Inl e) \<Rightarrow> (w4, Inl e)
      | (w4, Inr resolved) \<Rightarrow>
          (fst (addAsset updatedConfig entry w4), Inr (Installed resolved)))))"
proof -
  let ?git = "createGitProvider E (inferProvider url) url"
  let ?w1 = "logEvent (ResolveRef url ''main'') w"
  let ?w2 = "logEvent (FetchFile url MANIFEST_FILENAME registryCommit) ?w1"
  have rr: "resolveRef ?git ''main'' w = (?w1, Inr registryCommit)"
    using assms(1) by (simp add: resolveRef_def repoUrl_createGitProvider)
  have "snd (fetchManifest E ?git registryCommit ?w1) = Inr manifest"
    using assms(2) fetchManifest_snd[of E ?git registryCommit ?w1 w] by simp
  then have fm: "fetchManifest E ?git registryCommit ?w1 = (?w2, Inr manifest)"
    using fetchManifest_fst[of E ?git registryCommit ?w1]
    by (simp add: prod_eq_iff repoUrl_createGitProvider)
  have cl: "config_load ?w2 = Inr config"
    using assms(5) by (simp add: config_load_logEvent)
  show ?thesis
    by (simp add: install_def Let_def rr fm assms(3,4) cl)
qed

lemma install_existing_fst:
  assumes cl: "config_load w = Inr config"
    and ex: "find (\<lambda>a. e_id a = assetId) (c_assets config) = Some existing"
  shows "fst (install E url assetId versionRange False w) = logEvent (ResolveRef url ''main'') w
       \<or> (\<exists>rc. fst (install E url assetId versionRange False w)
             = logEvent (FetchFile url MANIFEST_FILENAME rc) (logEvent (ResolveRef url ''main'') w))"
proof -
  let ?git = "createGitProvider E (inferProvider url) url"
  let ?w1 = "logEvent (ResolveRef url ''main'') w"
  show ?thesis
  proof (cases "hostResolveRef (host ?git) ''main''")
    case (Inl e)
    then show ?thesis
      by (simp add: install_def Let_def resolveRef_def repoUrl_createGitProvider)
  next
    case (Inr rc)
    let ?w2 = "logEvent (FetchFile url MANIFEST_FILENAME rc) ?w1"
    have rr: "resolveRef ?git ''main'' w = (?w1, Inr rc)"
      using Inr by (simp add: resolveRef_def repoUrl_createGitProvider)
    obtain x where fm: "fetchManifest E ?git rc ?w1 = (?w2, x)"
      using fetchManifest_fst[of E ?git rc ?w1]
      by (cases "fetchManifest E ?git rc ?w1") (simp add: repoUrl_createGitProvider)
    have cl2: "config_load ?w2 = Inr config" using cl by (simp add: config_load_logEvent)
    have "fst (install E url assetId versionRange False w) = ?w2"
      by (simp add: install_def Let_def rr fm cl2 ex split: sum.split option.split)
    then show ?thesis by blast
  qed
qed

lemma ensureSource_loaded:
  assumes "config_load w = Inr config"
  shows "ensureSource E url p w =
    (case find (\<lambda>(alias, src). s_url src = url) (c_sources config) of
       Some (alias, src) \<Rightarrow> (w, config, alias)
     | None \<Rightarrow>
         (config_save (config\<lparr>c_sources :=
              AList.update (deriveAlias E url) \<lparr>s_provider = p, s_url = url\<rparr> (c_sources config)\<rparr>) w,
          config\<lparr>c_sources :=
              AList.update (deriveAlias E url) \<lparr>s_provider = p, s_url = url\<rparr> (c_sources config)\<rparr>,
          deriveAlias E url))"
  by (simp add: ensureSource_def assms Let_def split: option.split prod.split)

lemma ensureSource_alias:
  assumes "config_load w = Inr config"
  shows "snd (snd (ensureSource E url p (logEvent ev w))) = snd (snd (ensureSource E url p w))"
    and "c_assets (fst (snd (ensureSource E url p w))) = c_assets config"
proof -
  have cl: "config_load (logEvent ev w) = Inr config"
    using assms by (simp add: config_load_logEvent)
  show "snd (snd (ensureSource E url p (logEvent ev w))) = snd (snd (ensureSource E url p w))"
    unfolding ensureSource_loaded[OF cl] ensureSource_loaded[OF assms]
    by (simp split: option.split prod.split)
  show "c_assets (fst (snd (ensureSource E url p w))) = c_assets config"
    unfolding ensureSource_loaded[OF assms]
    by (simp split: option.split prod.split)
qed

lemma addAsset_configFile:
  "configFile (fst (addAsset config entry w))
     = Some (config\<lparr>c_assets :=
          filter (\<lambda>a. \<not> (e_id a = e_id entry \<and> e_source a = e_source entry)) (c_assets config)
            @ [entry]\<rparr>)"
  by (simp add: addAsset_def config_save_def Let_def)

text \<open>
  Claim C5.  When the consumer declaration loads and has an entry with the requested asset
  id, \<^verbatim>\<open>install\<close> without force leaves the consumer declaration, the lockfile, the cache
  and the links of the workspace as they were, whatever it returns; and when the registry
  ref resolves, the manifest loads, the asset is in it and a version is selected, it
  returns the sentinel with the first such entry and the selected version.
\<close>

theorem install_existing_no_mutation:
  assumes cl: "config_load w = Inr config"
    and ex: "find (\<lambda>a. e_id a = assetId) (c_assets config) = Some existing"
  shows "configFile (fst (install E url assetId versionRange False w)) = configFile w
       \<and> lockfileFile (fst (install E url assetId versionRange False w)) = lockfileFile w
       \<and> cache (fst (install E url assetId versionRange False w)) = cache w
       \<and> links (fst (install E url assetId versionRange False w)) = links w
       \<and> (\<forall>registryCommit manifest assetMeta version.
             snd (resolveRef (createGitProvider E (inferProvider url) url) ''main'' w)
               = Inr registryCommit
             \<and> snd (fetchManifest E (createGitProvider E (inferProvider url) url)
                      registryCommit w) = Inr manifest
             \<and> map_of (m_assets manifest) assetId = Some assetMeta
             \<and> install_selectVersion (ranges E) assetId (map fst (a_versions assetMeta))
                  versionRange = Inr version
             \<longrightarrow> snd (install E url assetId versionRange False w)
                   = Inr (AlreadyInstalled existing version))"
proof -
  have frame: "configFile (fst (install E url assetId versionRange False w)) = configFile w
       \<and> lockfileFile (fst (install E url assetId versionRange False w)) = lockfileFile w
       \<and> cache (fst (install E url assetId versionRange False w)) = cache w
       \<and> links (fst (install E url assetId versionRange False w)) = links w"
    using install_existing_fst[OF cl ex, of E url versionRange]
    by (auto simp: logEvent_fields)
  have res: "snd (install E url assetId versionRange False w)
                   = Inr (AlreadyInstalled existing version)"
    if "snd (resolveRef (createGitProvider E (inferProvider url) url) ''main'' w)
               = Inr registryCommit"
      "snd (fetchManifest E (createGitProvider E (inferProvider url) url)
                      registryCommit w) = Inr manifest"
      "map_of (m_assets manifest) assetId = Some assetMeta"
      "install_selectVersion (ranges E) assetId (map fst (a_versions assetMeta))
                  versionRange = Inr version"
    for registryCommit manifest assetMeta version
    unfolding install_pre[OF that cl] by (simp add: ex Let_def)
  from frame res show ?thesis by blast
qed

theorem install_existing_no_mutation_witness:
  "configFile (fst (install envX urlX ''test-asset'' ''latest'' False (wLocked urlX)))
     = configFile (wLocked urlX)
   \<and> lockfileFile (fst (install envX urlX ''test-asset'' ''latest'' False (wLocked urlX)))
     = lockfileFile (wLocked urlX)
   \<and> cache (fst (install envX urlX ''test-asset'' ''latest'' False (wLocked urlX)))
     = cache (wLocked urlX)
   \<and> snd (install envX urlX ''test-asset'' ''latest'' False (wLocked urlX))
     = Inr (AlreadyInstalled entryX ''1.0.0'')"
proof -
  let ?cfg = "\<lparr>c_schema = ''1.0'',
               c_sources = [(''test'', \<lparr>s_provider = Github, s_url = urlX\<rparr>)],
               c_assets = [entryX]\<rparr>"
  let ?am = "\<lparr>a_kind = Prompt, a_description = Some ''Test prompt'',
           a_versions = [(''1.0.0'', \<lparr>v_ref = None, v_path = ''prompts/test.md''\<rparr>)]\<rparr>"
  have cl: "config_load (wLocked urlX) = Inr ?cfg" by code_simp
  have ex: "find (\<lambda>a. e_id a = ''test-asset'') (c_assets ?cfg) = Some entryX" by code_simp
  have pre: "snd (resolveRef (createGitProvider envX (inferProvider urlX) urlX) ''main''
                    (wLocked urlX)) = Inr ''c2''
             \<and> snd (fetchManifest envX (createGitProvider envX (inferProvider urlX) urlX)
                      ''c2'' (wLocked urlX)) = Inr manifestX
             \<and> map_of (m_assets manifestX) ''test-asset'' = Some ?am
             \<and> install_selectVersion (ranges envX) ''test-asset'' (map fst (a_versions ?am))
                  ''latest'' = Inr ''1.0.0''"
    by code_simp
  note t = install_existing_no_mutation[OF cl ex, of envX urlX "''latest''"]
  from t have frame:
    "configFile (fst (install envX urlX ''test-asset'' ''latest'' False (wLocked urlX)))
     = configFile (wLocked urlX)
   \<and> lockfileFile (fst (install envX urlX ''test-asset'' ''latest'' False (wLocked urlX)))
     = lockfileFile (wLocked urlX)
   \<and> cache (fst (install envX urlX ''test-asset'' ''latest'' False (wLocked urlX)))
     = cache (wLocked urlX)"
    by blast
  from t have "\<forall>registryCommit manifest assetMeta version.
             snd (resolveRef (createGitProvider envX (inferProvider urlX) urlX) ''main''
                   (wLocked urlX)) = Inr registryCommit
             \<and> snd (fetchManifest envX (createGitProvider envX (inferProvider urlX) urlX)
                      registryCommit (wLocked urlX)) = Inr manifest
             \<and> map_of (m_assets manifest) ''test-asset'' = Some assetMeta
             \<and> install_selectVersion (ranges envX) ''test-asset'' (map fst (a_versions assetMeta))
                  ''latest'' = Inr version
             \<longrightarrow> snd (install envX urlX ''test-asset'' ''latest'' False (wLocked urlX))
                   = Inr (AlreadyInstalled entryX version)"
    by blast
  from this[rule_format, OF pre] frame show ?thesis by blast
qed

text \<open>
  Claim C10.  Let the first entry of the consumer declaration with the requested asset id
  have a source alias other than the alias \<^verbatim>\<open>ensureSource\<close> gives for the URL.  Then
  \<^verbatim>\<open>install\<close> without force returns the sentinel with that entry; and whenever \<^verbatim>\<open>install\<close>
  with force succeeds, the declaration it saves is the old list without the entries of the
  pair (id, alias), followed by the new entry, so that the entry of the other source is
  still there.
\<close>

theorem install_conflict_by_id_only:
  assumes cl: "config_load w = Inr config"
    and ex: "find (\<lambda>a. e_id a = assetId) (c_assets config) = Some existing"
    and rr: "snd (resolveRef (createGitProvider E (inferProvider url) url) ''main'' w)
               = Inr registryCommit"
    and fm: "snd (fetchManifest E (createGitProvider E (inferProvider url) url)
                      registryCommit w) = Inr manifest"
    and am: "map_of (m_assets manifest) assetId = Some assetMeta"
    and sel: "install_selectVersion (ranges E) assetId (map fst (a_versions assetMeta))
                  versionRange = Inr version"
    and diff: "e_source existing \<noteq> snd (snd (ensureSource E url (inferProvider url) w))"
  shows "snd (install E url assetId versionRange False w)
           = Inr (AlreadyInstalled existing version)
       \<and> (\<forall>resolved.
            snd (install E url assetId versionRange True w) = Inr (Installed resolved) \<longrightarrow>
            (\<exists>cfg. configFile (fst (install E url assetId versionRange True w)) = Some cfg
               \<and> c_assets cfg =
                    filter (\<lambda>a. \<not> (e_id a = assetId
                                    \<and> e_source a = snd (snd (ensureSource E url (inferProvider url) w))))
                      (c_assets config)
                    @ [\<lparr>e_id = assetId,
                        e_source = snd (snd (ensureSource E url (inferProvider url) w)),
                        e_version = version,
                        e_mapping = Some (getDefaultMapping (a_kind assetMeta) assetId)\<rparr>]
               \<and> existing \<in> set (c_assets cfg)))"
proof (intro conjI allI impI)
  show "snd (install E url assetId versionRange False w)
           = Inr (AlreadyInstalled existing version)"
    unfolding install_pre[OF rr fm am sel cl] by (simp add: ex Let_def)
next
  fix resolved
  assume ok: "snd (install E url assetId versionRange True w) = Inr (Installed resolved)"
  let ?p = "inferProvider url"
  let ?git = "createGitProvider E ?p url"
  let ?w2 = "logEvent (FetchFile url MANIFEST_FILENAME registryCommit)
                (logEvent (ResolveRef url ''main'') w)"
  let ?ali = "snd (snd (ensureSource E url ?p w))"
  let ?entry = "\<lparr>e_id = assetId, e_source = ?ali, e_version = version,
                  e_mapping = Some (getDefaultMapping (a_kind assetMeta) assetId)\<rparr>"
  have cl2: "config_load ?w2 = Inr config" using cl by (simp add: config_load_logEvent)
  obtain w3 uc al where es: "ensureSource E url ?p ?w2 = (w3, uc, al)"
    by (cases "ensureSource E url ?p ?w2") auto
  have al: "al = ?ali"
    using ensureSource_alias(1)[of "logEvent (ResolveRef url ''main'') w" config E url ?p
        "FetchFile url MANIFEST_FILENAME registryCommit"]
      ensureSource_alias(1)[OF cl, of E url ?p "ResolveRef url ''main''"] cl es
    by (simp add: config_load_logEvent)
  have uc: "c_assets uc = c_assets config"
    using ensureSource_alias(2)[OF cl2, of E url ?p] es by simp
  obtain w4 y where ra: "resolveAsset E ?entry manifest ?git registryCommit True w3 = (w4, y)"
    by (cases "resolveAsset E ?entry manifest ?git registryCommit True w3")
  have inst: "install E url assetId versionRange True w =
      (case y of Inl e \<Rightarrow> (w4, Inl e)
       | Inr resolved \<Rightarrow> (fst (addAsset uc ?entry w4), Inr (Installed resolved)))"
    unfolding install_pre[OF rr fm am sel cl] by (simp add: Let_def es al ra)
  from ok inst obtain r where y: "y = Inr r" by (cases y) auto
  let ?cfg = "uc\<lparr>c_assets :=
          filter (\<lambda>a. \<not> (e_id a = e_id ?entry \<and> e_source a = e_source ?entry)) (c_assets uc)
            @ [?entry]\<rparr>"
  have cf: "configFile (fst (install E url assetId versionRange True w)) = Some ?cfg"
    by (simp add: inst y addAsset_configFile)
  have mem: "existing \<in> set (c_assets config)" "e_id existing = assetId"
    using ex by (auto simp: find_Some_iff in_set_conv_nth)
  have "existing \<in> set (c_assets ?cfg)" using mem diff by (simp add: uc)
  moreover have "c_assets ?cfg =
      filter (\<lambda>a. \<not> (e_id a = assetId \<and> e_source a = ?ali)) (c_assets config) @ [?entry]"
    by (simp add: uc)
  ultimately show "\<exists>cfg. configFile (fst (install E url assetId versionRange True w)) = Some cfg
               \<and> c_assets cfg =
                    filter (\<lambda>a. \<not> (e_id a = assetId \<and> e_source a = ?ali)) (c_assets config)
                    @ [?entry]
               \<and> existing \<in> set (c_assets cfg)"
    using cf by blast
qed

theorem install_conflict_by_id_only_witness:
  "snd (install envX urlX ''test-asset'' ''latest'' False wMirror)
     = Inr (AlreadyInstalled entryM ''1.0.0'')
   \<and> (\<exists>cfg. configFile (fst (install envX urlX ''test-asset'' ''latest'' True wMirror)) = Some cfg
         \<and> c_assets cfg =
              [entryM,
               \<lparr>e_id = ''test-asset'', e_source = ''test'', e_version = ''1.0.0'',
                e_mapping = Some ''.github/prompts/test-asset.prompt.md''\<rparr>])"
proof -
  let ?cfg = "\<lparr>c_schema = ''1.0'',
               c_sources = [(''mirror'', \<lparr>s_provider = Github,
                                          s_url = ''https://github.com/mirror/repo''\<rparr>)],
               c_assets = [entryM]\<rparr>"
  let ?am = "\<lparr>a_kind = Prompt, a_description = Some ''Test prompt'',
           a_versions = [(''1.0.0'', \<lparr>v_ref = None, v_path = ''prompts/test.md''\<rparr>)]\<rparr>"
  let ?resolved = "\<lparr>r_id = ''test-asset'', r_version = ''1.0.0'', r_source = ''test'',
          r_commit = ''c2'', r_sha256 = ''sha256:# Changed'', r_content = ''# Changed'',
          r_cachePath = ''/cache/test/test-asset/1.0.0/test-asset.md'',
          r_mapping = Some ''.github/prompts/test-asset.prompt.md''\<rparr>"
  have cl: "config_load wMirror = Inr ?cfg" by code_simp
  have ex: "find (\<lambda>a. e_id a = ''test-asset'') (c_assets ?cfg) = Some entryM" by code_simp
  have rr: "snd (resolveRef (createGitProvider envX (inferProvider urlX) urlX) ''main'' wMirror)
              = Inr ''c2''" by code_simp
  have fm: "snd (fetchManifest envX (createGitProvider envX (inferProvider urlX) urlX)
                      ''c2'' wMirror) = Inr manifestX" by code_simp
  have am: "map_of (m_assets manifestX) ''test-asset'' = Some ?am" by code_simp
  have sel: "install_selectVersion (ranges envX) ''test-asset'' (map fst (a_versions ?am))
                  ''latest'' = Inr ''1.0.0''" by code_simp
  have al: "snd (snd (ensureSource envX urlX (inferProvider urlX) wMirror)) = ''test''"
    by code_simp
  have diff: "e_source entryM \<noteq> snd (snd (ensureSource envX urlX (inferProvider urlX) wMirror))"
    by code_simp
  have ok: "snd (install envX urlX ''test-asset'' ''latest'' True wMirror)
              = Inr (Installed ?resolved)" by code_simp
  have f: "filter (\<lambda>a. \<not> (e_id a = ''test-asset'' \<and> e_source a = ''test'')) (c_assets ?cfg)
             = [entryM]"
    "getDefaultMapping (a_kind ?am) ''test-asset'' = ''.github/prompts/test-asset.prompt.md''"
    by code_simp+
  note t = install_conflict_by_id_only[OF cl ex rr fm am sel diff]
  from t have 1: "snd (install envX urlX ''test-asset'' ''latest'' False wMirror)
     = Inr (AlreadyInstalled entryM ''1.0.0'')" by (rule conjunct1)
  from t have "\<forall>resolved.
            snd (install envX urlX ''test-asset'' ''latest'' True wMirror) = Inr (Installed resolved) \<longrightarrow>
            (\<exists>cfg. configFile (fst (install envX urlX ''test-asset'' ''latest'' True wMirror)) = Some cfg
               \<and> c_assets cfg =
                    filter (\<lambda>a. \<not> (e_id a = ''test-asset''
                                    \<and> e_source a = snd (snd (ensureSource envX urlX (inferProvider urlX) wMirror))))
                      (c_assets ?cfg)
                    @ [\<lparr>e_id = ''test-asset'',
                        e_source = snd (snd (ensureSource envX urlX (inferProvider urlX) wMirror)),
                        e_version = ''1.0.0'',
                        e_mapping = Some (getDefaultMapping (a_kind ?am) ''test-asset'')\<rparr>]
               \<and> entryM \<in> set (c_assets cfg))"
    by (rule conjunct2)
  from this[rule_format, OF ok]
  have 2: "\<exists>cfg. configFile (fst (install envX urlX ''test-asset'' ''latest'' True wMirror)) = Some cfg
         \<and> c_assets cfg =
              [entryM,
               \<lparr>e_id = ''test-asset'', e_source = ''test'', e_version = ''1.0.0'',
                e_mapping = Some ''.github/prompts/test-asset.prompt.md''\<rparr>]"
    unfolding al f by auto
  from 1 2 show ?thesis by blast
qed

section \<open>Publisher\<close>





























end
